theory Spec2Isabelle
  imports Complex_Main
begin

section \<open>Values exchanged with the libraries\<close>

text \<open>
  The backend is a set of Express routes over Mongoose models, guarded by Joi schemas.
  The routes, the schemas and the models are the repository's code and are embedded below.
  The libraries are not: what the code needs of them is either spelled out for the
  options the schemas use, or taken as a parameter (record \<open>libs\<close>).

  Strings are lists of characters read as the code points U+0000 to U+00FF, numbers are
  exact reals (IEEE rounding is not modelled), and an ObjectId is a natural number.
\<close>

type_synonym objectId = nat

datatype json = JNull | JBool bool | JNum real | JStr string | JOther

type_synonym jobject = "(string \<times> json) list"

record libs =
  isEmail :: "string \<Rightarrow> bool"
  toNumber :: "string \<Rightarrow> real option"
  castObjectId :: "string \<Rightarrow> objectId option"
  pcre :: "string \<Rightarrow> (string \<Rightarrow> bool) option"

text \<open>
  \<^item> \<open>isEmail\<close>: Joi's \<open>string().email()\<close> test;
  \<^item> \<open>toNumber\<close>: Joi's conversion of a numeric string by \<open>number()\<close>;
  \<^item> \<open>castObjectId\<close>: Mongoose's cast of a string to an ObjectId (\<open>None\<close>: CastError);
  \<^item> \<open>pcre\<close>: the database's regular expressions with option \<open>i\<close>, for the patterns
    outside the fragment given a meaning below (\<open>None\<close>: the pattern does not compile).
\<close>

subsection \<open>String primitives of JavaScript\<close>

definition isSpace :: "char \<Rightarrow> bool" where
  "isSpace c = ((of_char c :: nat) \<in> {9, 10, 11, 12, 13, 32, 160})"

definition trim :: "string \<Rightarrow> string" where
  "trim s = rev (dropWhile isSpace (rev (dropWhile isSpace s)))"

definition toLowerCase :: "char \<Rightarrow> char" where
  "toLowerCase c =
     (let n = (of_char c :: nat)
      in if (65 \<le> n \<and> n \<le> 90) \<or> (192 \<le> n \<and> n \<le> 222 \<and> n \<noteq> 215)
         then char_of (n + 32) else c)"

definition join :: "string \<Rightarrow> string list \<Rightarrow> string" where
  "join sep xs = (case xs of [] \<Rightarrow> [] | y # ys \<Rightarrow> y @ concat (map (\<lambda>z. sep @ z) ys))"

section \<open>middleware/validation.js: the Joi schemas\<close>

text \<open>
  A key of a Joi object schema, with the options the repository's schemas use:
  the type with its rules in the order written, \<open>required()\<close>, the values added by
  \<open>allow(...)\<close> and \<open>valid(...)\<close> (the latter sets \<open>only\<close>), \<open>default(...)\<close> and the
  messages overridden by \<open>messages({...})\<close>.
\<close>

datatype srule = SMin nat | SMax nat | SEmail

datatype nrule = NInteger | NMin real | NMax real

datatype jtype = JoiString bool bool "srule list" | JoiNumber "nrule list"

record keyschema =
  jtype :: jtype
  required :: bool
  valids :: "json list"
  only :: bool
  dflt :: "json option"
  messages :: "(string \<times> string) list"

type_synonym schema = "(string \<times> keyschema) list"

definition joiString :: "bool \<Rightarrow> bool \<Rightarrow> srule list \<Rightarrow> keyschema" where
  "joiString tr lc rs =
     \<lparr>jtype = JoiString tr lc rs, required = False, valids = [], only = False,
      dflt = None, messages = []\<rparr>"

definition joiNumber :: "nrule list \<Rightarrow> keyschema" where
  "joiNumber rs =
     \<lparr>jtype = JoiNumber rs, required = False, valids = [], only = False,
      dflt = None, messages = []\<rparr>"

definition statuses :: "string list" where
  "statuses = [''New'', ''Contacted'', ''Converted'', ''Lost'']"

definition customerSchema :: schema where
  "customerSchema =
     [(''name'', (joiString True False [SMin 2, SMax 100])
         \<lparr>required := True,
          messages := [(''string.empty'', ''Customer name is required''),
                       (''string.min'', ''Name must be at least 2 characters''),
                       (''string.max'', ''Name cannot exceed 100 characters'')]\<rparr>),
      (''email'', (joiString True True [SEmail])
         \<lparr>required := True,
          messages := [(''string.empty'', ''Email is required''),
                       (''string.email'', ''Please provide a valid email address'')]\<rparr>),
      (''phone'', (joiString True False [SMax 20])
         \<lparr>valids := [JStr ''''],
          messages := [(''string.max'', ''Phone number cannot exceed 20 characters'')]\<rparr>),
      (''company'', (joiString True False [SMax 100])
         \<lparr>valids := [JStr ''''],
          messages := [(''string.max'', ''Company name cannot exceed 100 characters'')]\<rparr>)]"

definition leadSchema :: schema where
  "leadSchema =
     [(''title'', (joiString True False [SMin 2, SMax 200])
         \<lparr>required := True,
          messages := [(''string.empty'', ''Lead title is required''),
                       (''string.min'', ''Title must be at least 2 characters''),
                       (''string.max'', ''Title cannot exceed 200 characters'')]\<rparr>),
      (''description'', (joiString True False [SMax 1000])
         \<lparr>valids := [JStr ''''],
          messages := [(''string.max'', ''Description cannot exceed 1000 characters'')]\<rparr>),
      (''status'', (joiString False False [])
         \<lparr>valids := map JStr statuses, only := True, dflt := Some (JStr ''New'')\<rparr>),
      (''value'', (joiNumber [NMin 0])
         \<lparr>dflt := Some (JNum 0),
          messages := [(''number.min'', ''Value cannot be negative'')]\<rparr>)]"

definition paginationSchema :: schema where
  "paginationSchema =
     [(''page'', (joiNumber [NInteger, NMin 1]) \<lparr>dflt := Some (JNum 1)\<rparr>),
      (''limit'', (joiNumber [NInteger, NMin 1, NMax 100]) \<lparr>dflt := Some (JNum 10)\<rparr>),
      (''q'', (joiString True False [SMax 100]) \<lparr>valids := [JStr '''']\<rparr>)]"

definition leadFilterSchema :: schema where
  "leadFilterSchema =
     [(''status'', (joiString False False [])
         \<lparr>valids := map JStr statuses @ [JStr ''''], only := True\<rparr>),
      (''page'', (joiNumber [NInteger, NMin 1]) \<lparr>dflt := Some (JNum 1)\<rparr>),
      (''limit'', (joiNumber [NInteger, NMin 1, NMax 100]) \<lparr>dflt := Some (JNum 10)\<rparr>)]"

subsection \<open>What \<open>schema.validate(obj, { abortEarly: false })\<close> answers\<close>

text \<open>
  An error of Joi: the path of the value, the error code and the message. The message is
  the text given by \<open>messages({...})\<close> for the code, else Joi's own template for it.
\<close>

datatype msgtext = Text string | JoiTemplate string

record joi_detail =
  path :: "string list"
  jcode :: string
  jmessage :: msgtext

definition joi_error :: "string \<Rightarrow> keyschema \<Rightarrow> string \<Rightarrow> joi_detail" where
  "joi_error k ks code =
     \<lparr>path = [k], jcode = code,
      jmessage = (case map_of (messages ks) code of Some m \<Rightarrow> Text m
                  | None \<Rightarrow> JoiTemplate code)\<rparr>"

text \<open>Conversion comes first (\<open>convert\<close> is on by default): case, trim, numeric strings.\<close>

fun coerce :: "libs \<Rightarrow> jtype \<Rightarrow> json \<Rightarrow> json" where
  "coerce L (JoiString tr lc rs) (JStr s) =
     JStr ((if tr then trim else id) ((if lc then map toLowerCase else id) s))"
| "coerce L (JoiNumber rs) (JStr s) =
     (case toNumber L s of Some r \<Rightarrow> JNum r | None \<Rightarrow> JStr s)"
| "coerce L t v = v"

text \<open>The check of the base type ends the validation of the value when it fails.\<close>

fun base_error :: "jtype \<Rightarrow> json \<Rightarrow> string option" where
  "base_error (JoiString tr lc rs) (JStr s) = (if s = [] then Some ''string.empty'' else None)"
| "base_error (JoiString tr lc rs) v = Some ''string.base''"
| "base_error (JoiNumber rs) (JNum r) =
     (if \<bar>r\<bar> > 2 ^ 53 - 1 then Some ''number.unsafe'' else None)"
| "base_error (JoiNumber rs) v = Some ''number.base''"

fun srule_error :: "libs \<Rightarrow> string \<Rightarrow> srule \<Rightarrow> string list" where
  "srule_error L s (SMin n) = (if length s < n then [''string.min''] else [])"
| "srule_error L s (SMax n) = (if length s > n then [''string.max''] else [])"
| "srule_error L s SEmail = (if isEmail L s then [] else [''string.email''])"

fun nrule_error :: "real \<Rightarrow> nrule \<Rightarrow> string list" where
  "nrule_error r NInteger = (if r = of_int \<lfloor>r\<rfloor> then [] else [''number.integer''])"
| "nrule_error r (NMin m) = (if r < m then [''number.min''] else [])"
| "nrule_error r (NMax m) = (if r > m then [''number.max''] else [])"

text \<open>Without \<open>abortEarly\<close> every rule is run, and every failure is kept.\<close>

fun rule_errors :: "libs \<Rightarrow> jtype \<Rightarrow> json \<Rightarrow> string list" where
  "rule_errors L (JoiString tr lc rs) (JStr s) = concat (map (srule_error L s) rs)"
| "rule_errors L (JoiNumber rs) (JNum r) = concat (map (nrule_error r) rs)"
| "rule_errors L t v = []"

definition validate_key ::
  "libs \<Rightarrow> string \<Rightarrow> keyschema \<Rightarrow> json option \<Rightarrow> joi_detail list \<times> json option" where
  "validate_key L k ks v =
     (case v of
        None \<Rightarrow> (if required ks then ([joi_error k ks ''any.required''], None)
                 else ([], dflt ks))
      | Some x \<Rightarrow>
          if x \<in> set (valids ks) then ([], Some x)
          else let y = coerce L (jtype ks) x in
            if y \<in> set (valids ks) then ([], Some y)
            else let e0 = (if only ks then [''any.only''] else []) in
              (case base_error (jtype ks) y of
                 Some c \<Rightarrow> (map (joi_error k ks) (e0 @ [c]), Some y)
               | None \<Rightarrow> (map (joi_error k ks) (e0 @ rule_errors L (jtype ks) y), Some y)))"

definition unknown_keys :: "schema \<Rightarrow> jobject \<Rightarrow> string list" where
  "unknown_keys sch obj = remdups (filter (\<lambda>k. k \<notin> set (map fst sch)) (map fst obj))"

definition unknown_error :: "string \<Rightarrow> joi_detail" where
  "unknown_error k = \<lparr>path = [k], jcode = ''object.unknown'', jmessage = JoiTemplate ''object.unknown''\<rparr>"

definition key_results ::
  "libs \<Rightarrow> schema \<Rightarrow> jobject \<Rightarrow> (string \<times> joi_detail list \<times> json option) list" where
  "key_results L sch obj = map (\<lambda>(k, ks). (k, validate_key L k ks (map_of obj k))) sch"

text \<open>The pair \<open>{ error, value }\<close>: \<open>error\<close> is undefined when the list of details is empty.\<close>

definition joi_validate :: "libs \<Rightarrow> schema \<Rightarrow> jobject \<Rightarrow> joi_detail list \<times> jobject" where
  "joi_validate L sch obj =
     (let rs = key_results L sch obj
      in (concat (map (\<lambda>(k, es, v). es) rs) @ map unknown_error (unknown_keys sch obj),
          concat (map (\<lambda>(k, es, v). case v of None \<Rightarrow> [] | Some x \<Rightarrow> [(k, x)]) rs)))"


subsection \<open>The middleware \<open>validate\<close> and \<open>validateQuery\<close>\<close>

record detail =
  field :: string
  message :: msgtext

datatype mongoose_error = CastError | ValidationError | DuplicateKey | OtherError

text \<open>
  \<open>DuplicateKey\<close> is the driver's error with \<open>code === 11000\<close>, \<open>CastError\<close> and
  \<open>ValidationError\<close> are Mongoose's errors of these names.
\<close>

record customer =
  cid :: objectId
  name :: string
  email :: string
  phone :: "string option"
  company :: "string option"
  ownerId :: objectId
  createdAt :: nat
  updatedAt :: nat

record lead =
  lid :: objectId
  customerId :: objectId
  title :: string
  description :: "string option"
  lstatus :: string
  lvalue :: real
  lcreatedAt :: nat
  lupdatedAt :: nat

record pagination =
  currentPage :: int
  totalPages :: int
  totalRecords :: nat
  hasNextPage :: bool
  hasPrevPage :: bool

datatype payload =
    NoData
  | CustomerData customer
  | CustomerList "(customer \<times> nat) list" pagination
  | CustomerWithLeads customer "lead list"
  | LeadData lead
  | LeadList "lead list" pagination

text \<open>
  The body \<open>{ success, data, error, message, details }\<close> with the status code. The key
  \<open>totalCustomers\<close> or \<open>totalLeads\<close> of the pagination object is \<open>totalRecords\<close>; a
  customer of the list is paired with its \<open>leadCount\<close>. The documents are shown as
  stored: the fields added by \<open>populate\<close> are left out of the payload.
\<close>

record response =
  status :: nat
  success :: bool
  error :: "string option"
  rmessage :: "string option"
  details :: "detail list"
  data :: payload

definition failure :: "nat \<Rightarrow> string \<Rightarrow> response" where
  "failure st e =
     \<lparr>status = st, success = False, error = Some e, rmessage = None, details = [],
      data = NoData\<rparr>"

definition succeed :: "nat \<Rightarrow> payload \<Rightarrow> string option \<Rightarrow> response" where
  "succeed st d m =
     \<lparr>status = st, success = True, error = None, rmessage = m, details = [], data = d\<rparr>"

definition to_detail :: "joi_detail \<Rightarrow> detail" where
  "to_detail d = \<lparr>field = join ''.'' (path d), message = jmessage d\<rparr>"

definition validate :: "libs \<Rightarrow> schema \<Rightarrow> jobject \<Rightarrow> response + jobject" where
  "validate L sch body =
     (case joi_validate L sch body of
        (ds, v) \<Rightarrow>
          if ds \<noteq> [] then Inl ((failure 400 ''Validation failed'') \<lparr>details := map to_detail ds\<rparr>)
          else Inr v)"

definition validateQuery :: "libs \<Rightarrow> schema \<Rightarrow> jobject \<Rightarrow> response + jobject" where
  "validateQuery L sch query =
     (case joi_validate L sch query of
        (ds, v) \<Rightarrow>
          if ds \<noteq> [] then
            Inl ((failure 400 ''Query validation failed'') \<lparr>details := map to_detail ds\<rparr>)
          else Inr v)"


section \<open>The Mongoose models\<close>

subsection \<open>Schema paths and their validators\<close>

text \<open>
  The options of a \<open>String\<close> path that the two model files use. A path is \<open>unique\<close>
  only when its declaration says so.
\<close>

record spath =
  p_required :: bool
  p_trim :: bool
  p_lowercase :: bool
  p_maxlength :: "nat option"
  p_match :: "(string \<Rightarrow> bool) option"
  p_enum :: "string list option"
  p_default :: "string option"
  p_unique :: bool

definition schemaString :: spath where
  "schemaString =
     \<lparr>p_required = False, p_trim = False, p_lowercase = False, p_maxlength = None,
      p_match = None, p_enum = None, p_default = None, p_unique = False\<rparr>"

text \<open>
  The pattern of the \<open>email\<close> path,
  \<^verbatim>\<open>/^\w+([.-]?\w+)*@\w+([.-]?\w+)*(\.\w{2,3})+$/\<close>:
  \<open>word_seq\<close> is \<^verbatim>\<open>\w+([.-]?\w+)*\<close> and \<open>tld_seq\<close> is \<^verbatim>\<open>(\.\w{2,3})+\<close>.
\<close>

definition isWord :: "char \<Rightarrow> bool" where
  "isWord c =
     (let n = (of_char c :: nat)
      in (48 \<le> n \<and> n \<le> 57) \<or> (65 \<le> n \<and> n \<le> 90) \<or> (97 \<le> n \<and> n \<le> 122) \<or> n = 95)"

definition isSep :: "char \<Rightarrow> bool" where
  "isSep c = (c = CHR ''.'' \<or> c = CHR ''-'')"

fun seps_ok :: "string \<Rightarrow> bool" where
  "seps_ok [] = True"
| "seps_ok [c] = isWord c"
| "seps_ok (c # d # r) = ((isWord c \<or> (isSep c \<and> isWord d)) \<and> seps_ok (d # r))"

definition word_seq :: "string \<Rightarrow> bool" where
  "word_seq s = (case s of [] \<Rightarrow> False | c # r \<Rightarrow> isWord c \<and> seps_ok s)"

fun tlds_from :: "nat \<Rightarrow> string \<Rightarrow> bool" where
  "tlds_from n [] = (n = 2 \<or> n = 3)"
| "tlds_from n (c # r) =
     (if c = CHR ''.'' then (n = 2 \<or> n = 3) \<and> tlds_from 0 r
      else isWord c \<and> tlds_from (Suc n) r)"

definition tld_seq :: "string \<Rightarrow> bool" where
  "tld_seq t = (case t of [] \<Rightarrow> False | c # r \<Rightarrow> c = CHR ''.'' \<and> tlds_from 0 r)"

definition domain_ok :: "string \<Rightarrow> bool" where
  "domain_ok r = list_ex (\<lambda>i. word_seq (take i r) \<and> tld_seq (drop i r)) [0..<Suc (length r)]"

definition email_match :: "string \<Rightarrow> bool" where
  "email_match s =
     (case dropWhile (\<lambda>c. c \<noteq> CHR ''@'') s of
        [] \<Rightarrow> False
      | a # r \<Rightarrow> word_seq (takeWhile (\<lambda>c. c \<noteq> CHR ''@'') s) \<and> domain_ok r)"

text \<open>models/Customer.js; \<open>ownerId\<close> is the required ObjectId path beside these.\<close>

definition Customer_name :: spath where
  "Customer_name = schemaString \<lparr>p_required := True, p_trim := True, p_maxlength := Some 100\<rparr>"

definition Customer_email :: spath where
  "Customer_email =
     schemaString \<lparr>p_required := True, p_lowercase := True, p_trim := True,
                   p_match := Some email_match\<rparr>"

definition Customer_phone :: spath where
  "Customer_phone = schemaString \<lparr>p_trim := True, p_maxlength := Some 20\<rparr>"

definition Customer_company :: spath where
  "Customer_company = schemaString \<lparr>p_trim := True, p_maxlength := Some 100\<rparr>"

definition Customer_paths :: "(string \<times> spath) list" where
  "Customer_paths =
     [(''name'', Customer_name), (''email'', Customer_email), (''phone'', Customer_phone),
      (''company'', Customer_company)]"

text \<open>
  models/Lead.js; \<open>customerId\<close> is the required ObjectId path, \<open>value\<close> the Number path
  with \<open>min: 0\<close> and \<open>default: 0\<close>, \<open>createdAt\<close> the Date path with \<open>default: Date.now\<close>.
\<close>

definition Lead_title :: spath where
  "Lead_title = schemaString \<lparr>p_required := True, p_trim := True, p_maxlength := Some 200\<rparr>"

definition Lead_description :: spath where
  "Lead_description = schemaString \<lparr>p_trim := True, p_maxlength := Some 1000\<rparr>"

definition Lead_status :: spath where
  "Lead_status = schemaString \<lparr>p_enum := Some statuses, p_default := Some ''New''\<rparr>"

definition string_valid :: "spath \<Rightarrow> string \<Rightarrow> bool" where
  "string_valid p t =
     ((if p_required p then t \<noteq> [] else True) \<and>
      (case p_maxlength p of None \<Rightarrow> True | Some n \<Rightarrow> length t \<le> n) \<and>
      (case p_match p of None \<Rightarrow> True | Some m \<Rightarrow> t = [] \<or> m t) \<and>
      (case p_enum p of None \<Rightarrow> True | Some vs \<Rightarrow> t \<in> set vs))"

text \<open>
  Setting a \<open>String\<close> path and validating it. The value comes from a body that has
  passed a Joi schema, which leaves only strings under the keys of these paths; any other
  value is answered with the validation error (Mongoose would first try to cast it).
\<close>

definition set_string :: "spath \<Rightarrow> json option \<Rightarrow> mongoose_error + string option" where
  "set_string p v =
     (case v of
        None \<Rightarrow> (if p_required p \<and> p_default p = None then Inl ValidationError
                 else Inr (p_default p))
      | Some (JStr s) \<Rightarrow>
          (let t = (if p_trim p then trim else id)
                     ((if p_lowercase p then map toLowerCase else id) s)
           in if string_valid p t then Inr (Some t) else Inl ValidationError)
      | Some x \<Rightarrow> Inl ValidationError)"

definition set_value :: "json option \<Rightarrow> mongoose_error + real" where
  "set_value v =
     (case v of
        None \<Rightarrow> Inr 0
      | Some (JNum r) \<Rightarrow> (if r < 0 then Inl ValidationError else Inr r)
      | Some x \<Rightarrow> Inl ValidationError)"

text \<open>In an update only the keys that are present are set and validated.\<close>

definition upd_string :: "spath \<Rightarrow> json option \<Rightarrow> mongoose_error + string option" where
  "upd_string p v =
     (case v of
        None \<Rightarrow> Inr None
      | Some x \<Rightarrow> (case set_string p (Some x) of
                     Inl e \<Rightarrow> Inl e
                   | Inr None \<Rightarrow> Inl ValidationError
                   | Inr (Some t) \<Rightarrow> Inr (Some t)))"

definition upd_value :: "json option \<Rightarrow> mongoose_error + real option" where
  "upd_value v =
     (case v of
        None \<Rightarrow> Inr None
      | Some x \<Rightarrow> (case set_value (Some x) of Inl e \<Rightarrow> Inl e | Inr r \<Rightarrow> Inr (Some r)))"

definition upd_objectId :: "libs \<Rightarrow> json option \<Rightarrow> mongoose_error + objectId option" where
  "upd_objectId L v =
     (case v of
        None \<Rightarrow> Inr None
      | Some (JStr s) \<Rightarrow> (case castObjectId L s of None \<Rightarrow> Inl CastError
                          | Some i \<Rightarrow> Inr (Some i))
      | Some x \<Rightarrow> Inl CastError)"

definition bindE :: "'e + 'a \<Rightarrow> ('a \<Rightarrow> 'e + 'b) \<Rightarrow> 'e + 'b" where
  "bindE m f = (case m of Inl e \<Rightarrow> Inl e | Inr x \<Rightarrow> f x)"

definition orElse :: "'a option \<Rightarrow> 'a \<Rightarrow> 'a" where
  "orElse v d = (case v of None \<Rightarrow> d | Some x \<Rightarrow> x)"

subsection \<open>The collections\<close>

text \<open>
  The state is the two collections, the source of fresh ObjectIds and the list of the
  calls made to the models so far, oldest first.
\<close>

datatype dbcall =
    CustomerSave
  | CustomerFind
  | CustomerCountDocuments
  | CustomerFindById string
  | CustomerFindByIdAndUpdate string
  | CustomerFindByIdAndDelete string
  | LeadSave
  | LeadFind
  | LeadCountDocuments
  | LeadFindOne string string
  | LeadFindOneAndUpdate string string
  | LeadFindOneAndDelete string string
  | LeadDeleteMany string

record db =
  customers :: "customer list"
  leads :: "lead list"
  nextId :: objectId
  calls :: "dbcall list"

definition logged :: "dbcall \<Rightarrow> db \<Rightarrow> db" where
  "logged c d = d \<lparr>calls := calls d @ [c]\<rparr>"

fun updateOne :: "('a \<Rightarrow> bool) \<Rightarrow> ('a \<Rightarrow> 'a) \<Rightarrow> 'a list \<Rightarrow> 'a list" where
  "updateOne P f [] = []"
| "updateOne P f (x # xs) = (if P x then f x # xs else x # updateOne P f xs)"

fun deleteOne :: "('a \<Rightarrow> bool) \<Rightarrow> 'a list \<Rightarrow> 'a list" where
  "deleteOne P [] = []"
| "deleteOne P (x # xs) = (if P x then xs else x # deleteOne P xs)"


subsection \<open>Queries with \<open>$regex\<close>\<close>

text \<open>
  \<open>{ $regex: q, $options: 'i' }\<close> hands \<open>q\<close> to the database as a regular expression.
  Its meaning is written out for the patterns made of ASCII characters that are not
  metacharacters, and of the dot, which stands for any character but the newline; the
  other patterns are left to \<open>pcre\<close>. A pattern matches when it matches anywhere in the
  field, letters compared without case.
\<close>

definition metachars :: "char list" where
  "metachars =
     [CHR 0x5C, CHR ''^'', CHR ''$'', CHR ''['', CHR '']'', CHR ''|'', CHR ''('', CHR '')'',
      CHR ''?'', CHR ''*'', CHR ''+'', CHR ''{'', CHR ''}'']"

definition plain :: "char \<Rightarrow> bool" where
  "plain c = ((of_char c :: nat) < 128 \<and> c \<notin> set metachars)"

datatype pitem = Lit char | AnyChar

definition compile :: "string \<Rightarrow> pitem list" where
  "compile q = map (\<lambda>c. if c = CHR ''.'' then AnyChar else Lit c) q"

fun item_match :: "pitem \<Rightarrow> char \<Rightarrow> bool" where
  "item_match (Lit c) d = (toLowerCase c = toLowerCase d)"
| "item_match AnyChar d = (d \<noteq> CHR 0x0A)"

fun match_here :: "pitem list \<Rightarrow> string \<Rightarrow> bool" where
  "match_here [] s = True"
| "match_here (p # ps) [] = False"
| "match_here (p # ps) (d # s) = (item_match p d \<and> match_here ps s)"

fun match_anywhere :: "pitem list \<Rightarrow> string \<Rightarrow> bool" where
  "match_anywhere ps [] = match_here ps []"
| "match_anywhere ps (d # s) = (match_here ps (d # s) \<or> match_anywhere ps s)"

definition regex_i :: "libs \<Rightarrow> string \<Rightarrow> (string \<Rightarrow> bool) option" where
  "regex_i L q = (if list_all plain q then Some (match_anywhere (compile q)) else pcre L q)"

subsection \<open>The model \<open>Customer\<close>\<close>

definition Customer_get :: "string \<Rightarrow> customer \<Rightarrow> string option" where
  "Customer_get k c =
     (if k = ''name'' then Some (name c) else if k = ''email'' then Some (email c)
      else if k = ''phone'' then phone c else if k = ''company'' then company c else None)"

definition Customer_unique :: "string list" where
  "Customer_unique = map fst (filter (\<lambda>kp. p_unique (snd kp)) Customer_paths)"

text \<open>The insert or update that the database refuses with the duplicate key error.\<close>

definition Customer_duplicate :: "customer list \<Rightarrow> customer \<Rightarrow> bool" where
  "Customer_duplicate cs c =
     list_ex (\<lambda>k. list_ex (\<lambda>c'. cid c' \<noteq> cid c \<and> Customer_get k c' = Customer_get k c) cs)
       Customer_unique"

text \<open>\<open>new Customer({ ...req.body, ownerId })\<close>, validated as \<open>save()\<close> does.\<close>

definition Customer_new ::
  "jobject \<Rightarrow> objectId \<Rightarrow> nat \<Rightarrow> objectId \<Rightarrow> mongoose_error + customer" where
  "Customer_new body owner now i =
     bindE (set_string Customer_name (map_of body ''name'')) (\<lambda>n.
     bindE (set_string Customer_email (map_of body ''email'')) (\<lambda>e.
     bindE (set_string Customer_phone (map_of body ''phone'')) (\<lambda>ph.
     bindE (set_string Customer_company (map_of body ''company'')) (\<lambda>co.
       case (n, e) of
         (Some n', Some e') \<Rightarrow>
           Inr \<lparr>cid = i, name = n', email = e', phone = ph, company = co, ownerId = owner,
                createdAt = now, updatedAt = now\<rparr>
       | _ \<Rightarrow> Inl ValidationError))))"

definition Customer_save ::
  "jobject \<Rightarrow> objectId \<Rightarrow> nat \<Rightarrow> db \<Rightarrow> (mongoose_error + customer) \<times> db" where
  "Customer_save body owner now d =
     (let d1 = logged CustomerSave d
      in case Customer_new body owner now (nextId d) of
           Inl e \<Rightarrow> (Inl e, d1)
         | Inr c \<Rightarrow>
             if Customer_duplicate (customers d) c then (Inl DuplicateKey, d1)
             else (Inr c, d1 \<lparr>customers := customers d @ [c], nextId := Suc (nextId d)\<rparr>))"

definition Customer_findById ::
  "libs \<Rightarrow> string \<Rightarrow> db \<Rightarrow> (mongoose_error + customer option) \<times> db" where
  "Customer_findById L p d =
     (case castObjectId L p of
        None \<Rightarrow> Inl CastError
      | Some i \<Rightarrow> Inr (find (\<lambda>c. cid c = i) (customers d)),
      logged (CustomerFindById p) d)"

text \<open>
  The update document of \<open>findByIdAndUpdate(id, body, { new: true, runValidators: true })\<close>:
  every key of the body that is a path of the schema is cast, validated and set.
\<close>

definition Customer_castUpdate ::
  "libs \<Rightarrow> jobject \<Rightarrow> mongoose_error + (customer \<Rightarrow> customer)" where
  "Customer_castUpdate L body =
     bindE (upd_string Customer_name (map_of body ''name'')) (\<lambda>n.
     bindE (upd_string Customer_email (map_of body ''email'')) (\<lambda>e.
     bindE (upd_string Customer_phone (map_of body ''phone'')) (\<lambda>ph.
     bindE (upd_string Customer_company (map_of body ''company'')) (\<lambda>co.
     bindE (upd_objectId L (map_of body ''ownerId'')) (\<lambda>ow.
       Inr (\<lambda>c. c \<lparr>name := orElse n (name c), email := orElse e (email c),
                    phone := (case ph of None \<Rightarrow> phone c | Some t \<Rightarrow> Some t),
                    company := (case co of None \<Rightarrow> company c | Some t \<Rightarrow> Some t),
                    ownerId := orElse ow (ownerId c)\<rparr>))))))"

definition Customer_findByIdAndUpdate ::
  "libs \<Rightarrow> string \<Rightarrow> jobject \<Rightarrow> nat \<Rightarrow> db \<Rightarrow> (mongoose_error + customer option) \<times> db" where
  "Customer_findByIdAndUpdate L p body now d =
     (let d1 = logged (CustomerFindByIdAndUpdate p) d
      in case castObjectId L p of
           None \<Rightarrow> (Inl CastError, d1)
         | Some i \<Rightarrow>
             (case Customer_castUpdate L body of
                Inl e \<Rightarrow> (Inl e, d1)
              | Inr f \<Rightarrow>
                  (case find (\<lambda>c. cid c = i) (customers d) of
                     None \<Rightarrow> (Inr None, d1)
                   | Some c \<Rightarrow>
                       (let c' = (f c) \<lparr>updatedAt := now\<rparr>
                        in if Customer_duplicate (customers d) c' then (Inl DuplicateKey, d1)
                           else (Inr (Some c'),
                                 d1 \<lparr>customers :=
                                       updateOne (\<lambda>c. cid c = i) (\<lambda>c. c') (customers d)\<rparr>)))))"

definition Customer_findByIdAndDelete ::
  "libs \<Rightarrow> string \<Rightarrow> db \<Rightarrow> (mongoose_error + customer option) \<times> db" where
  "Customer_findByIdAndDelete L p d =
     (let d1 = logged (CustomerFindByIdAndDelete p) d
      in case castObjectId L p of
           None \<Rightarrow> (Inl CastError, d1)
         | Some i \<Rightarrow>
             (Inr (find (\<lambda>c. cid c = i) (customers d)),
              d1 \<lparr>customers := deleteOne (\<lambda>c. cid c = i) (customers d)\<rparr>))"

text \<open>The filter object that the list handler builds: \<open>ownerId\<close> and \<open>$or\<close>, each optional.\<close>

record cquery =
  q_ownerId :: "objectId option"
  q_or :: "string option"

definition search_fields :: "(string \<Rightarrow> bool) \<Rightarrow> customer \<Rightarrow> bool" where
  "search_fields m c =
     (m (name c) \<or> m (email c) \<or> (case company c of None \<Rightarrow> False | Some s \<Rightarrow> m s))"

definition owned_by :: "objectId option \<Rightarrow> customer \<Rightarrow> bool" where
  "owned_by ow c = (case ow of None \<Rightarrow> True | Some i \<Rightarrow> ownerId c = i)"

definition Customer_filter :: "libs \<Rightarrow> cquery \<Rightarrow> (customer \<Rightarrow> bool) option" where
  "Customer_filter L qry =
     (case q_or qry of
        None \<Rightarrow> Some (owned_by (q_ownerId qry))
      | Some q \<Rightarrow>
          (case regex_i L q of
             None \<Rightarrow> None
           | Some m \<Rightarrow> Some (\<lambda>c. owned_by (q_ownerId qry) c \<and> search_fields m c)))"

text \<open>
  \<open>.sort({ createdAt: -1 })\<close>, \<open>.skip(n)\<close> and \<open>.limit(n)\<close>. Documents of equal date keep
  the order of the collection. A negative \<open>skip\<close> is an error of the database, a \<open>limit\<close>
  of zero is no limit and a negative one counts as its absolute value.
\<close>

definition mongo_limit :: "int \<Rightarrow> 'a list \<Rightarrow> 'a list" where
  "mongo_limit n xs = (if n = 0 then xs else take (nat \<bar>n\<bar>) xs)"

definition window :: "int \<Rightarrow> int \<Rightarrow> 'a list \<Rightarrow> mongoose_error + 'a list" where
  "window skip limit xs =
     (if skip < 0 then Inl OtherError else Inr (mongo_limit limit (drop (nat skip) xs)))"

definition newest_first :: "('a \<Rightarrow> nat) \<Rightarrow> 'a list \<Rightarrow> 'a list" where
  "newest_first t xs = sort_key (\<lambda>x. - int (t x)) xs"

definition Customer_find ::
  "libs \<Rightarrow> cquery \<Rightarrow> int \<Rightarrow> int \<Rightarrow> db \<Rightarrow> (mongoose_error + customer list) \<times> db" where
  "Customer_find L qry skip limit d =
     (case Customer_filter L qry of
        None \<Rightarrow> Inl OtherError
      | Some P \<Rightarrow> window skip limit (newest_first createdAt (filter P (customers d))),
      logged CustomerFind d)"

definition Customer_countDocuments ::
  "libs \<Rightarrow> cquery \<Rightarrow> db \<Rightarrow> (mongoose_error + nat) \<times> db" where
  "Customer_countDocuments L qry d =
     (case Customer_filter L qry of
        None \<Rightarrow> Inl OtherError
      | Some P \<Rightarrow> Inr (length (filter P (customers d))),
      logged CustomerCountDocuments d)"


subsection \<open>The model \<open>Lead\<close>\<close>

text \<open>An id given to a model is a string still to be cast, or an ObjectId read from a document.\<close>

datatype idarg = Str string | Oid objectId

fun cast_id :: "libs \<Rightarrow> idarg \<Rightarrow> objectId option" where
  "cast_id L (Str p) = castObjectId L p"
| "cast_id L (Oid i) = Some i"

text \<open>\<open>new Lead({ ...req.body, customerId: req.params.customerId })\<close>, validated as \<open>save()\<close> does.\<close>

definition Lead_new ::
  "libs \<Rightarrow> jobject \<Rightarrow> string \<Rightarrow> nat \<Rightarrow> objectId \<Rightarrow> mongoose_error + lead" where
  "Lead_new L body p now i =
     bindE (case castObjectId L p of None \<Rightarrow> Inl ValidationError | Some j \<Rightarrow> Inr j) (\<lambda>j.
     bindE (set_string Lead_title (map_of body ''title'')) (\<lambda>t.
     bindE (set_string Lead_description (map_of body ''description'')) (\<lambda>de.
     bindE (set_string Lead_status (map_of body ''status'')) (\<lambda>st.
     bindE (set_value (map_of body ''value'')) (\<lambda>v.
       case (t, st) of
         (Some t', Some st') \<Rightarrow>
           Inr \<lparr>lid = i, customerId = j, title = t', description = de, lstatus = st',
                lvalue = v, lcreatedAt = now, lupdatedAt = now\<rparr>
       | _ \<Rightarrow> Inl ValidationError)))))"

definition Lead_save ::
  "libs \<Rightarrow> jobject \<Rightarrow> string \<Rightarrow> nat \<Rightarrow> db \<Rightarrow> (mongoose_error + lead) \<times> db" where
  "Lead_save L body p now d =
     (let d1 = logged LeadSave d
      in case Lead_new L body p now (nextId d) of
           Inl e \<Rightarrow> (Inl e, d1)
         | Inr l \<Rightarrow> (Inr l, d1 \<lparr>leads := leads d @ [l], nextId := Suc (nextId d)\<rparr>))"

record lquery =
  lq_customerId :: idarg
  lq_status :: "string option"

definition Lead_filter :: "libs \<Rightarrow> lquery \<Rightarrow> mongoose_error + (lead \<Rightarrow> bool)" where
  "Lead_filter L qry =
     (case cast_id L (lq_customerId qry) of
        None \<Rightarrow> Inl CastError
      | Some j \<Rightarrow>
          Inr (\<lambda>l. customerId l = j \<and>
                    (case lq_status qry of None \<Rightarrow> True | Some s \<Rightarrow> lstatus l = s)))"

definition Lead_find ::
  "libs \<Rightarrow> lquery \<Rightarrow> (int \<times> int) option \<Rightarrow> db \<Rightarrow> (mongoose_error + lead list) \<times> db" where
  "Lead_find L qry win d =
     (case Lead_filter L qry of
        Inl e \<Rightarrow> Inl e
      | Inr P \<Rightarrow>
          (case win of
             None \<Rightarrow> Inr (newest_first lcreatedAt (filter P (leads d)))
           | Some (skip, limit) \<Rightarrow>
               window skip limit (newest_first lcreatedAt (filter P (leads d)))),
      logged LeadFind d)"

definition Lead_countDocuments ::
  "libs \<Rightarrow> lquery \<Rightarrow> db \<Rightarrow> (mongoose_error + nat) \<times> db" where
  "Lead_countDocuments L qry d =
     (case Lead_filter L qry of
        Inl e \<Rightarrow> Inl e
      | Inr P \<Rightarrow> Inr (length (filter P (leads d))),
      logged LeadCountDocuments d)"

text \<open>The filter \<open>{ _id: leadId, customerId: customerId }\<close> of the three by-id calls.\<close>

definition Lead_byIds :: "libs \<Rightarrow> string \<Rightarrow> string \<Rightarrow> mongoose_error + (lead \<Rightarrow> bool)" where
  "Lead_byIds L leadId p =
     (case castObjectId L leadId of
        None \<Rightarrow> Inl CastError
      | Some i \<Rightarrow>
          (case castObjectId L p of
             None \<Rightarrow> Inl CastError
           | Some j \<Rightarrow> Inr (\<lambda>l. lid l = i \<and> customerId l = j)))"

definition Lead_findOne ::
  "libs \<Rightarrow> string \<Rightarrow> string \<Rightarrow> db \<Rightarrow> (mongoose_error + lead option) \<times> db" where
  "Lead_findOne L leadId p d =
     (case Lead_byIds L leadId p of
        Inl e \<Rightarrow> Inl e
      | Inr P \<Rightarrow> Inr (find P (leads d)),
      logged (LeadFindOne leadId p) d)"

definition Lead_castUpdate :: "libs \<Rightarrow> jobject \<Rightarrow> mongoose_error + (lead \<Rightarrow> lead)" where
  "Lead_castUpdate L body =
     bindE (upd_string Lead_title (map_of body ''title'')) (\<lambda>t.
     bindE (upd_string Lead_description (map_of body ''description'')) (\<lambda>de.
     bindE (upd_string Lead_status (map_of body ''status'')) (\<lambda>st.
     bindE (upd_value (map_of body ''value'')) (\<lambda>v.
     bindE (upd_objectId L (map_of body ''customerId'')) (\<lambda>cu.
       Inr (\<lambda>l. l \<lparr>title := orElse t (title l),
                    description := (case de of None \<Rightarrow> description l | Some x \<Rightarrow> Some x),
                    lstatus := orElse st (lstatus l), lvalue := orElse v (lvalue l),
                    customerId := orElse cu (customerId l)\<rparr>))))))"

definition Lead_findOneAndUpdate ::
  "libs \<Rightarrow> string \<Rightarrow> string \<Rightarrow> jobject \<Rightarrow> nat \<Rightarrow> db \<Rightarrow> (mongoose_error + lead option) \<times> db" where
  "Lead_findOneAndUpdate L leadId p body now d =
     (let d1 = logged (LeadFindOneAndUpdate leadId p) d
      in case Lead_byIds L leadId p of
           Inl e \<Rightarrow> (Inl e, d1)
         | Inr P \<Rightarrow>
             (case Lead_castUpdate L body of
                Inl e \<Rightarrow> (Inl e, d1)
              | Inr f \<Rightarrow>
                  (case find P (leads d) of
                     None \<Rightarrow> (Inr None, d1)
                   | Some l \<Rightarrow>
                       (let l' = (f l) \<lparr>lupdatedAt := now\<rparr>
                        in (Inr (Some l'),
                            d1 \<lparr>leads := updateOne P (\<lambda>l. l') (leads d)\<rparr>)))))"

definition Lead_findOneAndDelete ::
  "libs \<Rightarrow> string \<Rightarrow> string \<Rightarrow> db \<Rightarrow> (mongoose_error + lead option) \<times> db" where
  "Lead_findOneAndDelete L leadId p d =
     (let d1 = logged (LeadFindOneAndDelete leadId p) d
      in case Lead_byIds L leadId p of
           Inl e \<Rightarrow> (Inl e, d1)
         | Inr P \<Rightarrow> (Inr (find P (leads d)), d1 \<lparr>leads := deleteOne P (leads d)\<rparr>))"

definition Lead_deleteMany :: "libs \<Rightarrow> string \<Rightarrow> db \<Rightarrow> (mongoose_error + unit) \<times> db" where
  "Lead_deleteMany L p d =
     (let d1 = logged (LeadDeleteMany p) d
      in case castObjectId L p of
           None \<Rightarrow> (Inl CastError, d1)
         | Some j \<Rightarrow> (Inr (), d1 \<lparr>leads := filter (\<lambda>l. customerId l \<noteq> j) (leads d)\<rparr>))"


section \<open>The routes\<close>

text \<open>
  \<open>req.user\<close>, as \<open>authenticateToken\<close> leaves it: every route below runs after it. The
  handlers take the time of the request where a document is stamped.
\<close>

record user =
  uid :: objectId
  role :: string

text \<open>
  The \<open>catch\<close> blocks: a CastError is answered 400 where the block tests for it, the
  duplicate key error is answered 400 where the block tests for code 11000, everything
  else is 500.
\<close>

definition caught :: "string option \<Rightarrow> string option \<Rightarrow> string \<Rightarrow> mongoose_error \<Rightarrow> response" where
  "caught castMsg dupMsg other e =
     (case (e, castMsg, dupMsg) of
        (CastError, Some m, x) \<Rightarrow> failure 400 m
      | (DuplicateKey, x, Some m) \<Rightarrow> failure 400 m
      | _ \<Rightarrow> failure 500 other)"

text \<open>The ownership check, written in each by-id handler after the look-up of the customer.\<close>

definition denied :: "user \<Rightarrow> customer \<Rightarrow> bool" where
  "denied u c = (role u \<noteq> ''admin'' \<and> ownerId c \<noteq> uid u)"

definition int_of :: "jobject \<Rightarrow> string \<Rightarrow> int option" where
  "int_of obj k =
     (case map_of obj k of
        Some (JNum r) \<Rightarrow> (if r = of_int \<lfloor>r\<rfloor> then Some \<lfloor>r\<rfloor> else None)
      | _ \<Rightarrow> None)"

definition truthy :: "jobject \<Rightarrow> string \<Rightarrow> string option" where
  "truthy obj k =
     (case map_of obj k of
        Some (JStr s) \<Rightarrow> (if s \<noteq> [] then Some s else None)
      | _ \<Rightarrow> None)"

definition page_info :: "int \<Rightarrow> int \<Rightarrow> nat \<Rightarrow> pagination" where
  "page_info page limit tot =
     \<lparr>currentPage = page,
      totalPages = \<lceil>real tot / real_of_int limit\<rceil>,
      totalRecords = tot,
      hasNextPage = (page < \<lceil>real tot / real_of_int limit\<rceil>),
      hasPrevPage = (page > 1)\<rparr>"

subsection \<open>routes/customers.js\<close>

text \<open>
  \<open>populate('ownerId', 'name email')\<close> puts the owner's document in place of the id for
  the response. A customer is created with the id of the authenticated user and users are
  never deleted, so in the handler of GET by id \<open>customer.ownerId._id\<close> is the stored
  \<open>ownerId\<close>, which the other handlers read directly.
\<close>

definition createCustomer :: "user \<Rightarrow> jobject \<Rightarrow> nat \<Rightarrow> db \<Rightarrow> response \<times> db" where
  "createCustomer u body now d =
     (case Customer_save body (uid u) now d of
        (Inr c, d1) \<Rightarrow>
          (succeed 201 (CustomerData c) (Some ''Customer created successfully''), d1)
      | (Inl e, d1) \<Rightarrow>
          (caught None (Some ''Customer with this email already exists'')
             ''Failed to create customer'' e, d1))"

text \<open>
  In the list handler the \<open>leadCount\<close> of a customer is
  \<open>Lead.countDocuments({ customerId: customer._id })\<close>, one call for each customer of the page.
\<close>

definition listQuery :: "user \<Rightarrow> jobject \<Rightarrow> cquery" where
  "listQuery u query =
     \<lparr>q_ownerId = (if role u \<noteq> ''admin'' then Some (uid u) else None),
      q_or = truthy query ''q''\<rparr>"

definition listCustomers :: "libs \<Rightarrow> user \<Rightarrow> jobject \<Rightarrow> db \<Rightarrow> response \<times> db" where
  "listCustomers L u query d =
     (case (int_of query ''page'', int_of query ''limit'') of
        (Some page, Some limit) \<Rightarrow>
          (case Customer_find L (listQuery u query) ((page - 1) * limit) limit d of
             (Inl e, d1) \<Rightarrow> (failure 500 ''Failed to fetch customers'', d1)
           | (Inr cs, d1) \<Rightarrow>
               (case Customer_countDocuments L (listQuery u query) d1 of
                  (Inl e, d2) \<Rightarrow> (failure 500 ''Failed to fetch customers'', d2)
                | (Inr tot, d2) \<Rightarrow>
                    (succeed 200
                       (CustomerList
                          (map (\<lambda>c. (c, length (filter (\<lambda>l. customerId l = cid c) (leads d)))) cs)
                          (page_info page limit tot))
                       None,
                     d2 \<lparr>calls := calls d2 @ map (\<lambda>c. LeadCountDocuments) cs\<rparr>)))
      | _ \<Rightarrow> (failure 500 ''Failed to fetch customers'', d))"

definition getCustomer :: "libs \<Rightarrow> user \<Rightarrow> string \<Rightarrow> db \<Rightarrow> response \<times> db" where
  "getCustomer L u p d =
     (case Customer_findById L p d of
        (Inl e, d1) \<Rightarrow>
          (caught (Some ''Invalid customer ID'') None ''Failed to fetch customer'' e, d1)
      | (Inr None, d1) \<Rightarrow> (failure 404 ''Customer not found'', d1)
      | (Inr (Some c), d1) \<Rightarrow>
          if denied u c then (failure 403 ''Access denied'', d1)
          else
            (case Lead_find L \<lparr>lq_customerId = Str p, lq_status = None\<rparr> None d1 of
               (Inl e, d2) \<Rightarrow>
                 (caught (Some ''Invalid customer ID'') None ''Failed to fetch customer'' e, d2)
             | (Inr ls, d2) \<Rightarrow> (succeed 200 (CustomerWithLeads c ls) None, d2)))"

definition updateCustomer ::
  "libs \<Rightarrow> user \<Rightarrow> string \<Rightarrow> jobject \<Rightarrow> nat \<Rightarrow> db \<Rightarrow> response \<times> db" where
  "updateCustomer L u p body now d =
     (case Customer_findById L p d of
        (Inl e, d1) \<Rightarrow>
          (caught (Some ''Invalid customer ID'')
             (Some ''Customer with this email already exists'')
             ''Failed to update customer'' e, d1)
      | (Inr None, d1) \<Rightarrow> (failure 404 ''Customer not found'', d1)
      | (Inr (Some c), d1) \<Rightarrow>
          if denied u c then (failure 403 ''Access denied'', d1)
          else
            (case Customer_findByIdAndUpdate L p body now d1 of
               (Inl e, d2) \<Rightarrow>
                 (caught (Some ''Invalid customer ID'')
                    (Some ''Customer with this email already exists'')
                    ''Failed to update customer'' e, d2)
             | (Inr None, d2) \<Rightarrow>
                 (succeed 200 NoData (Some ''Customer updated successfully''), d2)
             | (Inr (Some c'), d2) \<Rightarrow>
                 (succeed 200 (CustomerData c') (Some ''Customer updated successfully''), d2)))"

definition deleteCustomer :: "libs \<Rightarrow> user \<Rightarrow> string \<Rightarrow> db \<Rightarrow> response \<times> db" where
  "deleteCustomer L u p d =
     (case Customer_findById L p d of
        (Inl e, d1) \<Rightarrow>
          (caught (Some ''Invalid customer ID'') None ''Failed to delete customer'' e, d1)
      | (Inr None, d1) \<Rightarrow> (failure 404 ''Customer not found'', d1)
      | (Inr (Some c), d1) \<Rightarrow>
          if denied u c then (failure 403 ''Access denied'', d1)
          else
            (case Lead_deleteMany L p d1 of
               (Inl e, d2) \<Rightarrow>
                 (caught (Some ''Invalid customer ID'') None ''Failed to delete customer'' e, d2)
             | (Inr x, d2) \<Rightarrow>
                 (case Customer_findByIdAndDelete L p d2 of
                    (Inl e, d3) \<Rightarrow>
                      (caught (Some ''Invalid customer ID'') None
                         ''Failed to delete customer'' e, d3)
                  | (Inr y, d3) \<Rightarrow>
                      (succeed 200 NoData
                         (Some ''Customer and associated leads deleted successfully''), d3))))"


subsection \<open>routes/leads.js\<close>

definition createLead ::
  "libs \<Rightarrow> user \<Rightarrow> string \<Rightarrow> jobject \<Rightarrow> nat \<Rightarrow> db \<Rightarrow> response \<times> db" where
  "createLead L u p body now d =
     (case Customer_findById L p d of
        (Inl e, d1) \<Rightarrow>
          (caught (Some ''Invalid customer ID'') None ''Failed to create lead'' e, d1)
      | (Inr None, d1) \<Rightarrow> (failure 404 ''Customer not found'', d1)
      | (Inr (Some c), d1) \<Rightarrow>
          if denied u c then (failure 403 ''Access denied'', d1)
          else
            (case Lead_save L body p now d1 of
               (Inl e, d2) \<Rightarrow>
                 (caught (Some ''Invalid customer ID'') None ''Failed to create lead'' e, d2)
             | (Inr l, d2) \<Rightarrow>
                 (succeed 201 (LeadData l) (Some ''Lead created successfully''), d2)))"

definition leadsQuery :: "string \<Rightarrow> jobject \<Rightarrow> lquery" where
  "leadsQuery p query = \<lparr>lq_customerId = Str p, lq_status = truthy query ''status''\<rparr>"

definition listLeads :: "libs \<Rightarrow> user \<Rightarrow> string \<Rightarrow> jobject \<Rightarrow> db \<Rightarrow> response \<times> db" where
  "listLeads L u p query d =
     (case Customer_findById L p d of
        (Inl e, d1) \<Rightarrow>
          (caught (Some ''Invalid customer ID'') None ''Failed to fetch leads'' e, d1)
      | (Inr None, d1) \<Rightarrow> (failure 404 ''Customer not found'', d1)
      | (Inr (Some c), d1) \<Rightarrow>
          if denied u c then (failure 403 ''Access denied'', d1)
          else
            (case (int_of query ''page'', int_of query ''limit'') of
               (Some page, Some limit) \<Rightarrow>
                 (case Lead_find L (leadsQuery p query) (Some ((page - 1) * limit, limit)) d1 of
                    (Inl e, d2) \<Rightarrow>
                      (caught (Some ''Invalid customer ID'') None ''Failed to fetch leads'' e, d2)
                  | (Inr ls, d2) \<Rightarrow>
                      (case Lead_countDocuments L (leadsQuery p query) d2 of
                         (Inl e, d3) \<Rightarrow>
                           (caught (Some ''Invalid customer ID'') None
                              ''Failed to fetch leads'' e, d3)
                       | (Inr tot, d3) \<Rightarrow>
                           (succeed 200 (LeadList ls (page_info page limit tot)) None, d3)))
             | _ \<Rightarrow> (failure 500 ''Failed to fetch leads'', d1)))"

definition getLead :: "libs \<Rightarrow> user \<Rightarrow> string \<Rightarrow> string \<Rightarrow> db \<Rightarrow> response \<times> db" where
  "getLead L u p leadId d =
     (case Customer_findById L p d of
        (Inl e, d1) \<Rightarrow>
          (caught (Some ''Invalid lead or customer ID'') None ''Failed to fetch lead'' e, d1)
      | (Inr None, d1) \<Rightarrow> (failure 404 ''Customer not found'', d1)
      | (Inr (Some c), d1) \<Rightarrow>
          if denied u c then (failure 403 ''Access denied'', d1)
          else
            (case Lead_findOne L leadId p d1 of
               (Inl e, d2) \<Rightarrow>
                 (caught (Some ''Invalid lead or customer ID'') None
                    ''Failed to fetch lead'' e, d2)
             | (Inr None, d2) \<Rightarrow> (failure 404 ''Lead not found'', d2)
             | (Inr (Some l), d2) \<Rightarrow> (succeed 200 (LeadData l) None, d2)))"

definition updateLead ::
  "libs \<Rightarrow> user \<Rightarrow> string \<Rightarrow> string \<Rightarrow> jobject \<Rightarrow> nat \<Rightarrow> db \<Rightarrow> response \<times> db" where
  "updateLead L u p leadId body now d =
     (case Customer_findById L p d of
        (Inl e, d1) \<Rightarrow>
          (caught (Some ''Invalid lead or customer ID'') None ''Failed to update lead'' e, d1)
      | (Inr None, d1) \<Rightarrow> (failure 404 ''Customer not found'', d1)
      | (Inr (Some c), d1) \<Rightarrow>
          if denied u c then (failure 403 ''Access denied'', d1)
          else
            (case Lead_findOneAndUpdate L leadId p body now d1 of
               (Inl e, d2) \<Rightarrow>
                 (caught (Some ''Invalid lead or customer ID'') None
                    ''Failed to update lead'' e, d2)
             | (Inr None, d2) \<Rightarrow> (failure 404 ''Lead not found'', d2)
             | (Inr (Some l), d2) \<Rightarrow>
                 (succeed 200 (LeadData l) (Some ''Lead updated successfully''), d2)))"

definition deleteLead :: "libs \<Rightarrow> user \<Rightarrow> string \<Rightarrow> string \<Rightarrow> db \<Rightarrow> response \<times> db" where
  "deleteLead L u p leadId d =
     (case Customer_findById L p d of
        (Inl e, d1) \<Rightarrow>
          (caught (Some ''Invalid lead or customer ID'') None ''Failed to delete lead'' e, d1)
      | (Inr None, d1) \<Rightarrow> (failure 404 ''Customer not found'', d1)
      | (Inr (Some c), d1) \<Rightarrow>
          if denied u c then (failure 403 ''Access denied'', d1)
          else
            (case Lead_findOneAndDelete L leadId p d1 of
               (Inl e, d2) \<Rightarrow>
                 (caught (Some ''Invalid lead or customer ID'') None
                    ''Failed to delete lead'' e, d2)
             | (Inr None, d2) \<Rightarrow> (failure 404 ''Lead not found'', d2)
             | (Inr (Some l), d2) \<Rightarrow>
                 (succeed 200 NoData (Some ''Lead deleted successfully''), d2)))"

subsection \<open>The router: each route is its middleware, then its handler\<close>

datatype request =
    POST_customers jobject
  | GET_customers jobject
  | GET_customer string
  | PUT_customer string jobject
  | DELETE_customer string
  | POST_leads string jobject
  | GET_leads string jobject
  | GET_lead string string
  | PUT_lead string string jobject
  | DELETE_lead string string

definition guarded ::
  "response + jobject \<Rightarrow> (jobject \<Rightarrow> db \<Rightarrow> response \<times> db) \<Rightarrow> db \<Rightarrow> response \<times> db" where
  "guarded v next d = (case v of Inl r \<Rightarrow> (r, d) | Inr x \<Rightarrow> next x d)"

fun router :: "libs \<Rightarrow> user \<Rightarrow> nat \<Rightarrow> request \<Rightarrow> db \<Rightarrow> response \<times> db" where
  "router L u now (POST_customers body) d =
     guarded (validate L customerSchema body) (\<lambda>b. createCustomer u b now) d"
| "router L u now (GET_customers query) d =
     guarded (validateQuery L paginationSchema query) (listCustomers L u) d"
| "router L u now (GET_customer p) d = getCustomer L u p d"
| "router L u now (PUT_customer p body) d =
     guarded (validate L customerSchema body) (\<lambda>b. updateCustomer L u p b now) d"
| "router L u now (DELETE_customer p) d = deleteCustomer L u p d"
| "router L u now (POST_leads p body) d =
     guarded (validate L leadSchema body) (\<lambda>b. createLead L u p b now) d"
| "router L u now (GET_leads p query) d =
     guarded (validateQuery L leadFilterSchema query) (listLeads L u p) d"
| "router L u now (GET_lead p leadId) d = getLead L u p leadId d"
| "router L u now (PUT_lead p leadId body) d =
     guarded (validate L leadSchema body) (\<lambda>b. updateLead L u p leadId b now) d"
| "router L u now (DELETE_lead p leadId) d = deleteLead L u p leadId d"

section \<open>Sample data\<close>

text \<open>
  A library record, three identities and a small database, for the closed examples. In
  the sample an ObjectId is written in decimal digits.
\<close>

definition digits_id :: "string \<Rightarrow> objectId option" where
  "digits_id s =
     (if s \<noteq> [] \<and> list_all (\<lambda>c. 48 \<le> (of_char c :: nat) \<and> (of_char c :: nat) \<le> 57) s
      then Some (fold (\<lambda>c n. 10 * n + ((of_char c :: nat) - 48)) s 0) else None)"

definition L0 :: libs where
  "L0 =
     \<lparr>isEmail = (\<lambda>s. CHR ''@'' \<in> set s), toNumber = (\<lambda>s. None), castObjectId = digits_id,
      pcre = (\<lambda>s. None)\<rparr>"

definition alice :: user where
  "alice = \<lparr>uid = 1, role = ''user''\<rparr>"

definition bob :: user where
  "bob = \<lparr>uid = 2, role = ''user''\<rparr>"

definition carol :: user where
  "carol = \<lparr>uid = 3, role = ''admin''\<rparr>"

definition acme :: customer where
  "acme =
     \<lparr>cid = 10, name = ''Ann Lee'', email = ''ann@example.com'', phone = None,
      company = Some ''Acme Corp'', ownerId = 1, createdAt = 100, updatedAt = 100\<rparr>"

definition globex :: customer where
  "globex =
     \<lparr>cid = 20, name = ''Gil Roy'', email = ''gil@globex.org'', phone = Some ''555'',
      company = Some ''Globex'', ownerId = 2, createdAt = 200, updatedAt = 200\<rparr>"

definition deal :: lead where
  "deal =
     \<lparr>lid = 30, customerId = 10, title = ''Big deal'', description = None, lstatus = ''New'',
      lvalue = 500, lcreatedAt = 300, lupdatedAt = 300\<rparr>"

definition offer :: lead where
  "offer =
     \<lparr>lid = 40, customerId = 20, title = ''Offer'', description = None,
      lstatus = ''Contacted'', lvalue = 0, lcreatedAt = 400, lupdatedAt = 400\<rparr>"

definition db0 :: db where
  "db0 = \<lparr>customers = [acme, globex], leads = [deal, offer], nextId = 50, calls = []\<rparr>"

section \<open>Notions used to state the properties\<close>

text \<open>The customer that the path of a by-id request names.\<close>

fun customer_param :: "request \<Rightarrow> string option" where
  "customer_param (POST_customers body) = None"
| "customer_param (GET_customers query) = None"
| "customer_param (GET_customer p) = Some p"
| "customer_param (PUT_customer p body) = Some p"
| "customer_param (DELETE_customer p) = Some p"
| "customer_param (POST_leads p body) = Some p"
| "customer_param (GET_leads p query) = Some p"
| "customer_param (GET_lead p leadId) = Some p"
| "customer_param (PUT_lead p leadId body) = Some p"
| "customer_param (DELETE_lead p leadId) = Some p"

text \<open>The schema that the middleware of a route checks, with the object it is given.\<close>

fun route_schema :: "request \<Rightarrow> (schema \<times> jobject) option" where
  "route_schema (POST_customers body) = Some (customerSchema, body)"
| "route_schema (GET_customers query) = Some (paginationSchema, query)"
| "route_schema (GET_customer p) = None"
| "route_schema (PUT_customer p body) = Some (customerSchema, body)"
| "route_schema (DELETE_customer p) = None"
| "route_schema (POST_leads p body) = Some (leadSchema, body)"
| "route_schema (GET_leads p query) = Some (leadFilterSchema, query)"
| "route_schema (GET_lead p leadId) = None"
| "route_schema (PUT_lead p leadId body) = Some (leadSchema, body)"
| "route_schema (DELETE_lead p leadId) = None"

definition accepted :: "libs \<Rightarrow> request \<Rightarrow> bool" where
  "accepted L req =
     (case route_schema req of
        None \<Rightarrow> True
      | Some (sch, obj) \<Rightarrow> fst (joi_validate L sch obj) = [])"

text \<open>The lead that the path of a request names, for the three routes on one lead.\<close>

fun lead_param :: "request \<Rightarrow> string option" where
  "lead_param (GET_lead p leadId) = Some leadId"
| "lead_param (PUT_lead p leadId body) = Some leadId"
| "lead_param (DELETE_lead p leadId) = Some leadId"
| "lead_param req = None"

text \<open>\<open>q\<close> occurs in \<open>s\<close> as a substring, letters compared without case.\<close>

definition occurs_ci :: "string \<Rightarrow> string \<Rightarrow> bool" where
  "occurs_ci q s =
     list_ex (\<lambda>i. take (length q) (drop i (map toLowerCase s)) = map toLowerCase q)
       [0..<Suc (length s)]"

definition occurs_in_fields :: "string \<Rightarrow> customer \<Rightarrow> bool" where
  "occurs_in_fields q c =
     (occurs_ci q (name c) \<or> occurs_ci q (email c) \<or>
      (case company c of None \<Rightarrow> False | Some s \<Rightarrow> occurs_ci q s))"

text \<open>The customers an identity may see: all of them for an admin, else its own.\<close>

definition visible :: "user \<Rightarrow> customer \<Rightarrow> bool" where
  "visible u c = (role u = ''admin'' \<or> ownerId c = uid u)"

text \<open>The page of a list: the records from \<open>(page - 1) * limit\<close> on, at most \<open>limit\<close> of them.\<close>

definition page_of :: "int \<Rightarrow> int \<Rightarrow> 'a list \<Rightarrow> 'a list" where
  "page_of page limit xs = take (nat limit) (drop (nat ((page - 1) * limit)) xs)"

text \<open>A sample of 25 customers, all of the admin Carol, and no lead.\<close>

definition db25 :: db where
  "db25 =
     \<lparr>customers =
        map (\<lambda>n. \<lparr>cid = n, name = ''Customer'', email = ''c@example.com'', phone = None,
                   company = None, ownerId = 3, createdAt = n, updatedAt = n\<rparr>) [0..<25],
      leads = [], nextId = 25, calls = []\<rparr>"

section \<open>Basic facts\<close>

lemma logged_simps [simp]:
  "customers (logged c d) = customers d"
  "leads (logged c d) = leads d"
  "nextId (logged c d) = nextId d"
  "calls (logged c d) = calls d @ [c]"
  by (simp_all add: logged_def)

lemma status_failure [simp]: "status (failure st e) = st"
  by (simp add: failure_def)

lemma status_succeed [simp]: "status (succeed st p m) = st"
  by (simp add: succeed_def)

lemma status_caught: "status (caught a b c e) = 400 \<or> status (caught a b c e) = 500"
  by (cases e; cases a; cases b) (simp_all add: caught_def)

lemma caught_not_403 [simp]: "status (caught a b c e) \<noteq> 403"
  using status_caught [of a b c e] by auto

lemma caught_not_200 [simp]: "status (caught a b c e) \<noteq> 200"
  using status_caught [of a b c e] by auto

lemma caught_not_404 [simp]: "status (caught a b c e) \<noteq> 404"
  using status_caught [of a b c e] by auto

lemma findById_found:
  assumes "castObjectId L p = Some i" and "find (\<lambda>c. cid c = i) (customers d) = Some c"
  shows "Customer_findById L p d = (Inr (Some c), logged (CustomerFindById p) d)"
  using assms by (simp add: Customer_findById_def)

lemma guarded_Inr [simp]: "guarded (Inr v) next d = next v d"
  by (simp add: guarded_def)

lemma guarded_Inl [simp]: "guarded (Inl r) next d = (r, d)"
  by (simp add: guarded_def)

lemma validate_accepts:
  "fst (joi_validate L sch body) = [] \<Longrightarrow> validate L sch body = Inr (snd (joi_validate L sch body))"
  by (cases "joi_validate L sch body") (simp add: validate_def)

lemma validateQuery_accepts:
  "fst (joi_validate L sch query) = [] \<Longrightarrow>
   validateQuery L sch query = Inr (snd (joi_validate L sch query))"
  by (cases "joi_validate L sch query") (simp add: validateQuery_def)



section \<open>The ownership check of the by-id handlers\<close>

text \<open>
  Each by-id handler looks the customer up and then runs the same check. When the check
  denies, the handler answers 403 having made that one call; when it does not, no later
  step answers 403.
\<close>

lemma getCustomer_denied:
  assumes "castObjectId L p = Some i" and "find (\<lambda>c. cid c = i) (customers d) = Some c"
    and "denied u c"
  shows "getCustomer L u p d = (failure 403 ''Access denied'', logged (CustomerFindById p) d)"
  using assms by (simp add: getCustomer_def findById_found)

lemma getCustomer_passed:
  assumes "castObjectId L p = Some i" and "find (\<lambda>c. cid c = i) (customers d) = Some c"
    and "\<not> denied u c"
  shows "status (fst (getCustomer L u p d)) \<noteq> 403"
  using assms
  by (auto simp: getCustomer_def findById_found split: prod.splits sum.splits option.splits)

lemma updateCustomer_denied:
  assumes "castObjectId L p = Some i" and "find (\<lambda>c. cid c = i) (customers d) = Some c"
    and "denied u c"
  shows "updateCustomer L u p body now d =
           (failure 403 ''Access denied'', logged (CustomerFindById p) d)"
  using assms by (simp add: updateCustomer_def findById_found)

lemma updateCustomer_passed:
  assumes "castObjectId L p = Some i" and "find (\<lambda>c. cid c = i) (customers d) = Some c"
    and "\<not> denied u c"
  shows "status (fst (updateCustomer L u p body now d)) \<noteq> 403"
  using assms
  by (auto simp: updateCustomer_def findById_found split: prod.splits sum.splits option.splits)

lemma deleteCustomer_denied:
  assumes "castObjectId L p = Some i" and "find (\<lambda>c. cid c = i) (customers d) = Some c"
    and "denied u c"
  shows "deleteCustomer L u p d = (failure 403 ''Access denied'', logged (CustomerFindById p) d)"
  using assms by (simp add: deleteCustomer_def findById_found)

lemma deleteCustomer_passed:
  assumes "castObjectId L p = Some i" and "find (\<lambda>c. cid c = i) (customers d) = Some c"
    and "\<not> denied u c"
  shows "status (fst (deleteCustomer L u p d)) \<noteq> 403"
  using assms
  by (auto simp: deleteCustomer_def findById_found split: prod.splits sum.splits option.splits)

lemma createLead_denied:
  assumes "castObjectId L p = Some i" and "find (\<lambda>c. cid c = i) (customers d) = Some c"
    and "denied u c"
  shows "createLead L u p body now d =
           (failure 403 ''Access denied'', logged (CustomerFindById p) d)"
  using assms by (simp add: createLead_def findById_found)

lemma createLead_passed:
  assumes "castObjectId L p = Some i" and "find (\<lambda>c. cid c = i) (customers d) = Some c"
    and "\<not> denied u c"
  shows "status (fst (createLead L u p body now d)) \<noteq> 403"
  using assms
  by (auto simp: createLead_def findById_found split: prod.splits sum.splits option.splits)

lemma listLeads_denied:
  assumes "castObjectId L p = Some i" and "find (\<lambda>c. cid c = i) (customers d) = Some c"
    and "denied u c"
  shows "listLeads L u p query d = (failure 403 ''Access denied'', logged (CustomerFindById p) d)"
  using assms by (simp add: listLeads_def findById_found)

lemma listLeads_passed:
  assumes "castObjectId L p = Some i" and "find (\<lambda>c. cid c = i) (customers d) = Some c"
    and "\<not> denied u c"
  shows "status (fst (listLeads L u p query d)) \<noteq> 403"
  using assms
  by (auto simp: listLeads_def findById_found split: prod.splits sum.splits option.splits)

lemma getLead_denied:
  assumes "castObjectId L p = Some i" and "find (\<lambda>c. cid c = i) (customers d) = Some c"
    and "denied u c"
  shows "getLead L u p leadId d = (failure 403 ''Access denied'', logged (CustomerFindById p) d)"
  using assms by (simp add: getLead_def findById_found)

lemma getLead_passed:
  assumes "castObjectId L p = Some i" and "find (\<lambda>c. cid c = i) (customers d) = Some c"
    and "\<not> denied u c"
  shows "status (fst (getLead L u p leadId d)) \<noteq> 403"
  using assms
  by (auto simp: getLead_def findById_found split: prod.splits sum.splits option.splits)

lemma updateLead_denied:
  assumes "castObjectId L p = Some i" and "find (\<lambda>c. cid c = i) (customers d) = Some c"
    and "denied u c"
  shows "updateLead L u p leadId body now d =
           (failure 403 ''Access denied'', logged (CustomerFindById p) d)"
  using assms by (simp add: updateLead_def findById_found)

lemma updateLead_passed:
  assumes "castObjectId L p = Some i" and "find (\<lambda>c. cid c = i) (customers d) = Some c"
    and "\<not> denied u c"
  shows "status (fst (updateLead L u p leadId body now d)) \<noteq> 403"
  using assms
  by (auto simp: updateLead_def findById_found split: prod.splits sum.splits option.splits)

lemma deleteLead_denied:
  assumes "castObjectId L p = Some i" and "find (\<lambda>c. cid c = i) (customers d) = Some c"
    and "denied u c"
  shows "deleteLead L u p leadId d = (failure 403 ''Access denied'', logged (CustomerFindById p) d)"
  using assms by (simp add: deleteLead_def findById_found)

lemma deleteLead_passed:
  assumes "castObjectId L p = Some i" and "find (\<lambda>c. cid c = i) (customers d) = Some c"
    and "\<not> denied u c"
  shows "status (fst (deleteLead L u p leadId d)) \<noteq> 403"
  using assms
  by (auto simp: deleteLead_def findById_found split: prod.splits sum.splits option.splits)

lemma denied_iff: "denied u c \<longleftrightarrow> \<not> (role u = ''admin'' \<or> uid u = ownerId c)"
  by (auto simp: denied_def)

text \<open>
  The router on a request that its middleware accepts, and on a by-id request that the
  check denies.
\<close>

lemma router_denied:
  assumes "customer_param req = Some p" and "accepted L req"
    and "castObjectId L p = Some i" and "find (\<lambda>c. cid c = i) (customers d) = Some c"
    and "denied u c"
  shows "router L u now req d = (failure 403 ''Access denied'', logged (CustomerFindById p) d)"
proof (cases req)
  case (PUT_customer p' body)
  with assms show ?thesis
    by (simp add: accepted_def validate_accepts updateCustomer_denied)
next
  case (POST_leads p' body)
  with assms show ?thesis
    by (simp add: accepted_def validate_accepts createLead_denied)
next
  case (GET_leads p' query)
  with assms show ?thesis
    by (simp add: accepted_def validateQuery_accepts listLeads_denied)
next
  case (PUT_lead p' leadId body)
  with assms show ?thesis
    by (simp add: accepted_def validate_accepts updateLead_denied)
qed (use assms in \<open>simp_all add: getCustomer_denied deleteCustomer_denied getLead_denied
       deleteLead_denied\<close>)

lemma router_passed:
  assumes "customer_param req = Some p" and "accepted L req"
    and "castObjectId L p = Some i" and "find (\<lambda>c. cid c = i) (customers d) = Some c"
    and "\<not> denied u c"
  shows "status (fst (router L u now req d)) \<noteq> 403"
proof (cases req)
  case (PUT_customer p' body)
  with assms show ?thesis
    by (simp add: accepted_def validate_accepts updateCustomer_passed)
next
  case (POST_leads p' body)
  with assms show ?thesis
    by (simp add: accepted_def validate_accepts createLead_passed)
next
  case (GET_leads p' query)
  with assms show ?thesis
    by (simp add: accepted_def validateQuery_accepts listLeads_passed)
next
  case (PUT_lead p' leadId body)
  with assms show ?thesis
    by (simp add: accepted_def validate_accepts updateLead_passed)
qed (use assms in \<open>simp_all add: getCustomer_passed deleteCustomer_passed getLead_passed
       deleteLead_passed\<close>)

text \<open>
  C1, as the code has it. For each of the eight by-id routes on a customer or its leads,
  when the customer of the path exists and the body or query has passed the schema of the
  route: an admin and the owner of the customer are never answered 403, and every other
  identity is answered 403 with the error \<open>Access denied\<close>, the two collections left as
  they were.
\<close>

theorem C1_ownership_check:
  assumes "customer_param req = Some p"
    and "accepted L req"
    and "castObjectId L p = Some i"
    and "find (\<lambda>c. cid c = i) (customers d) = Some c"
  shows "(role u = ''admin'' \<or> uid u = ownerId c \<longrightarrow>
            status (fst (router L u now req d)) \<noteq> 403) \<and>
         (\<not> (role u = ''admin'' \<or> uid u = ownerId c) \<longrightarrow>
            status (fst (router L u now req d)) = 403 \<and>
            error (fst (router L u now req d)) = Some ''Access denied'' \<and>
            customers (snd (router L u now req d)) = customers d \<and>
            leads (snd (router L u now req d)) = leads d)"
proof (intro conjI impI)
  assume "role u = ''admin'' \<or> uid u = ownerId c"
  then have "\<not> denied u c" by (simp add: denied_iff)
  then show "status (fst (router L u now req d)) \<noteq> 403"
    using assms by (rule router_passed [rotated 4])
next
  assume "\<not> (role u = ''admin'' \<or> uid u = ownerId c)"
  then have "denied u c" by (simp add: denied_iff)
  then have r: "router L u now req d =
                  (failure 403 ''Access denied'', logged (CustomerFindById p) d)"
    using assms by (rule router_denied [rotated 4])
  show "status (fst (router L u now req d)) = 403" by (simp add: r)
  show "error (fst (router L u now req d)) = Some ''Access denied''"
    by (simp add: r failure_def)
  show "customers (snd (router L u now req d)) = customers d" by (simp add: r)
  show "leads (snd (router L u now req d)) = leads d" by (simp add: r)
qed

theorem C1_ownership_check_witness:
  "status (fst (router L0 alice 500 (DELETE_lead ''10'' ''30'') db0)) \<noteq> 403 \<and>
   status (fst (router L0 carol 500 (DELETE_lead ''10'' ''30'') db0)) \<noteq> 403 \<and>
   status (fst (router L0 bob 500 (DELETE_lead ''10'' ''30'') db0)) = 403 \<and>
   leads (snd (router L0 bob 500 (DELETE_lead ''10'' ''30'') db0)) = leads db0"
proof -
  have h1: "customer_param (DELETE_lead ''10'' ''30'') = Some ''10''" by simp
  have h2: "accepted L0 (DELETE_lead ''10'' ''30'')" by (simp add: accepted_def)
  have h3: "castObjectId L0 ''10'' = Some 10" by code_simp
  have h4: "find (\<lambda>c. cid c = 10) (customers db0) = Some acme" by code_simp
  have a: "uid alice = ownerId acme" by (simp add: alice_def acme_def)
  have b: "role carol = ''admin''" by (simp add: carol_def)
  have c: "\<not> (role bob = ''admin'' \<or> uid bob = ownerId acme)"
    by (simp add: bob_def acme_def)
  show ?thesis
    using C1_ownership_check [OF h1 h2 h3 h4, of alice 500]
      C1_ownership_check [OF h1 h2 h3 h4, of carol 500]
      C1_ownership_check [OF h1 h2 h3 h4, of bob 500] a b c
    by blast
qed

text \<open>
  C1 as stated does not hold: it names no condition on the body. Bob does not own the
  customer 10 and is no admin; his PUT with an empty body is answered 400 by the
  validation middleware, which runs before the handler, and not 403.
\<close>

theorem C1_counterexample:
  "customer_param (PUT_customer ''10'' []) = Some ''10'' \<and>
   castObjectId L0 ''10'' = Some 10 \<and>
   find (\<lambda>c. cid c = 10) (customers db0) = Some acme \<and>
   \<not> (role bob = ''admin'' \<or> uid bob = ownerId acme) \<and>
   status (fst (router L0 bob 500 (PUT_customer ''10'' []) db0)) = 400"
  by code_simp

section \<open>Uniqueness of the customer email\<close>

text \<open>
  No path of the Customer schema is declared \<open>unique\<close>, so the database never refuses a
  customer for its email, and the branch of the handlers for the duplicate key error is
  never taken.
\<close>

lemma Customer_unique_empty: "Customer_unique = []"
  by (simp add: Customer_unique_def Customer_paths_def Customer_name_def Customer_email_def
      Customer_phone_def Customer_company_def schemaString_def)

lemma Customer_never_duplicate: "\<not> Customer_duplicate cs c"
  by (simp add: Customer_duplicate_def Customer_unique_empty)

lemma Customer_save_not_DuplicateKey: "fst (Customer_save body owner now d) \<noteq> Inl DuplicateKey"
proof (cases "Customer_new body owner now (nextId d)")
  case (Inl e)
  then have "e = ValidationError"
    by (auto simp: Customer_new_def bindE_def set_string_def Let_def
        split: sum.splits option.splits json.splits if_splits)
  with Inl show ?thesis by (simp add: Customer_save_def Let_def)
next
  case (Inr c)
  then show ?thesis by (simp add: Customer_save_def Let_def Customer_never_duplicate)
qed

text \<open>
  C5 on the code. Bob creates a customer with the email of the existing customer 10 and
  is answered 201: two customers now carry that email. Alice sets the email of her
  customer 10 to that of customer 20 and is answered 200.
\<close>

theorem C5_duplicate_email_accepted:
  "map email (customers db0) = [''ann@example.com'', ''gil@globex.org''] \<and>
   status (fst (router L0 bob 500
     (POST_customers [(''name'', JStr ''Dup''), (''email'', JStr ''ann@example.com'')]) db0))
     = 201 \<and>
   map email (customers (snd (router L0 bob 500
     (POST_customers [(''name'', JStr ''Dup''), (''email'', JStr ''ann@example.com'')]) db0)))
     = [''ann@example.com'', ''gil@globex.org'', ''ann@example.com''] \<and>
   status (fst (router L0 alice 500
     (PUT_customer ''10'' [(''name'', JStr ''Ann Lee''), (''email'', JStr ''gil@globex.org'')])
     db0)) = 200 \<and>
   map email (customers (snd (router L0 alice 500
     (PUT_customer ''10'' [(''name'', JStr ''Ann Lee''), (''email'', JStr ''gil@globex.org'')])
     db0))) = [''gil@globex.org'', ''gil@globex.org'']"
  by code_simp

section \<open>Rejected bodies\<close>

lemma join_single [simp]: "join sep [k] = k"
  by (simp add: join_def)


lemma key_errors_kept:
  assumes "(k, ks) \<in> set sch" and "e \<in> set (fst (validate_key L k ks (map_of obj k)))"
  shows "e \<in> set (fst (joi_validate L sch obj))"
proof -
  from assms(1) have "(k, validate_key L k ks (map_of obj k)) \<in> set (key_results L sch obj)"
    by (force simp: key_results_def)
  with assms(2) show ?thesis
    by (cases "validate_key L k ks (map_of obj k)") (force simp: joi_validate_def Let_def)
qed





section \<open>What an accepted body can change\<close>

lemma joi_value_keys:
  "(k, x) \<in> set (snd (joi_validate L sch obj)) \<Longrightarrow> k \<in> fst ` set sch"
  by (force simp: joi_validate_def key_results_def Let_def split: option.splits)

lemma joi_value_no_key:
  "k \<notin> fst ` set sch \<Longrightarrow> map_of (snd (joi_validate L sch obj)) k = None"
  by (meson joi_value_keys map_of_SomeD not_Some_eq)

lemma validate_Inr:
  "validate L sch body = Inr v \<Longrightarrow> fst (joi_validate L sch body) = [] \<and> v = snd (joi_validate L sch body)"
  by (cases "joi_validate L sch body") (auto simp: validate_def split: if_splits)

lemma validateQuery_Inr:
  "validateQuery L sch query = Inr v \<Longrightarrow>
   fst (joi_validate L sch query) = [] \<and> v = snd (joi_validate L sch query)"
  by (cases "joi_validate L sch query") (auto simp: validateQuery_def split: if_splits)

lemma customer_body_no_owner:
  "validate L customerSchema body = Inr v \<Longrightarrow> map_of v ''ownerId'' = None"
  by (auto dest!: validate_Inr intro!: joi_value_no_key simp: customerSchema_def)

lemma castUpdate_keeps_owner:
  assumes "Customer_castUpdate L v = Inr f" and "map_of v ''ownerId'' = None"
  shows "ownerId (f c) = ownerId c \<and> cid (f c) = cid c \<and> createdAt (f c) = createdAt c"
  using assms
  by (auto simp: Customer_castUpdate_def bindE_def upd_objectId_def orElse_def
      split: sum.splits)

lemma map_updateOne:
  "find P xs = Some c \<Longrightarrow> g c' = g c \<Longrightarrow> map g (updateOne P (\<lambda>x. c') xs) = map g xs"
  by (induction xs) (auto split: if_splits)

lemma find_updateOne:
  "find P xs = Some c \<Longrightarrow> P c' \<Longrightarrow> find P (updateOne P (\<lambda>x. c') xs) = Some c'"
  by (induction xs) (auto split: if_splits)

lemma updateCustomer_ok:
  assumes "castObjectId L p = Some i" and "find (\<lambda>c. cid c = i) (customers d) = Some c"
    and "status (fst (updateCustomer L u p v now d)) = 200"
  shows "\<exists>f. Customer_castUpdate L v = Inr f \<and>
             customers (snd (updateCustomer L u p v now d))
               = updateOne (\<lambda>c. cid c = i) (\<lambda>x. (f c) \<lparr>updatedAt := now\<rparr>) (customers d) \<and>
             leads (snd (updateCustomer L u p v now d)) = leads d"
  using assms
  by (auto simp: updateCustomer_def findById_found Customer_findByIdAndUpdate_def Let_def
      Customer_never_duplicate split: if_splits sum.splits)

text \<open>
  C7. After a PUT on a customer that is answered 200, the customer has the owner it had:
  the schema of the body knows no key \<open>ownerId\<close> and refuses a body that carries one, so
  the update never sets that path. Its id and its creation date stay as well, and so do
  the ids and owners of all customers, and the leads.
\<close>

theorem C7_owner_unchanged:
  assumes "castObjectId L p = Some i"
    and "find (\<lambda>c. cid c = i) (customers d) = Some c"
    and "status (fst (router L u now (PUT_customer p body) d)) = 200"
  shows "(\<exists>c'. find (\<lambda>c. cid c = i) (customers (snd (router L u now (PUT_customer p body) d)))
                 = Some c' \<and>
               ownerId c' = ownerId c \<and> createdAt c' = createdAt c) \<and>
         map ownerId (customers (snd (router L u now (PUT_customer p body) d)))
           = map ownerId (customers d) \<and>
         map cid (customers (snd (router L u now (PUT_customer p body) d)))
           = map cid (customers d) \<and>
         leads (snd (router L u now (PUT_customer p body) d)) = leads d"
proof (cases "validate L customerSchema body")
  case (Inl r)
  then have "status (fst (router L u now (PUT_customer p body) d)) = 400"
    by (cases "joi_validate L customerSchema body")
      (auto simp: validate_def failure_def split: if_splits)
  with assms(3) show ?thesis by simp
next
  case (Inr v)
  then have r: "router L u now (PUT_customer p body) d = updateCustomer L u p v now d"
    by simp
  from updateCustomer_ok [OF assms(1,2)] assms(3) obtain f where
    f: "Customer_castUpdate L v = Inr f"
    and cs: "customers (snd (updateCustomer L u p v now d))
               = updateOne (\<lambda>c. cid c = i) (\<lambda>x. (f c) \<lparr>updatedAt := now\<rparr>) (customers d)"
    and ls: "leads (snd (updateCustomer L u p v now d)) = leads d"
    unfolding r by blast
  let ?c' = "(f c) \<lparr>updatedAt := now\<rparr>"
  have keep: "ownerId ?c' = ownerId c" "cid ?c' = cid c" "createdAt ?c' = createdAt c"
    using castUpdate_keeps_owner [OF f customer_body_no_owner [OF Inr], of c] by simp_all
  have "cid c = i"
    using assms(2) by (auto simp: find_Some_iff)
  then have "find (\<lambda>c. cid c = i) (updateOne (\<lambda>c. cid c = i) (\<lambda>x. ?c') (customers d)) = Some ?c'"
    using assms(2) keep(2) by (intro find_updateOne) simp_all
  moreover have "map ownerId (updateOne (\<lambda>c. cid c = i) (\<lambda>x. ?c') (customers d))
                   = map ownerId (customers d)"
    using assms(2) keep(1) by (rule map_updateOne)
  moreover have "map cid (updateOne (\<lambda>c. cid c = i) (\<lambda>x. ?c') (customers d))
                   = map cid (customers d)"
    using assms(2) keep(2) by (rule map_updateOne)
  ultimately show ?thesis
    using keep ls unfolding r cs by auto
qed

theorem C7_owner_unchanged_witness:
  "status (fst (router L0 carol 500
     (PUT_customer ''10'' [(''name'', JStr ''Ann Ray''), (''email'', JStr ''ann@example.com'')])
     db0)) = 200 \<and>
   map ownerId (customers (snd (router L0 carol 500
     (PUT_customer ''10'' [(''name'', JStr ''Ann Ray''), (''email'', JStr ''ann@example.com'')])
     db0))) = [1, 2] \<and>
   map name (customers (snd (router L0 carol 500
     (PUT_customer ''10'' [(''name'', JStr ''Ann Ray''), (''email'', JStr ''ann@example.com'')])
     db0))) = [''Ann Ray'', ''Gil Roy'']"
proof -
  let ?req = "PUT_customer ''10'' [(''name'', JStr ''Ann Ray''), (''email'', JStr ''ann@example.com'')]"
  have h1: "castObjectId L0 ''10'' = Some 10" by code_simp
  have h2: "find (\<lambda>c. cid c = 10) (customers db0) = Some acme" by code_simp
  have h3: "status (fst (router L0 carol 500 ?req db0)) = 200" by code_simp
  have o: "map ownerId (customers db0) = [1, 2]" by code_simp
  have n: "map name (customers (snd (router L0 carol 500 ?req db0))) = [''Ann Ray'', ''Gil Roy'']"
    by code_simp
  show ?thesis
    using C7_owner_unchanged [OF h1 h2 h3] h3 o n by simp
qed

section \<open>Deleting a customer\<close>

lemma deleteOne_filter:
  "distinct (map g xs) \<Longrightarrow> deleteOne (\<lambda>x. g x = i) xs = filter (\<lambda>x. g x \<noteq> i) xs"
proof (induction xs)
  case Nil
  then show ?case by simp
next
  case (Cons x xs)
  show ?case
  proof (cases "g x = i")
    case True
    from Cons.prems have "g x \<notin> g ` set xs" by simp
    with True have "\<forall>y \<in> set xs. g y \<noteq> i" by (metis imageI)
    then have "filter (\<lambda>x. g x \<noteq> i) xs = xs" by (simp add: filter_id_conv)
    with True show ?thesis by simp
  next
    case False
    with Cons show ?thesis by simp
  qed
qed

lemma deleteCustomer_ok:
  assumes "castObjectId L p = Some i"
    and "status (fst (deleteCustomer L u p d)) = 200"
  shows "snd (deleteCustomer L u p d) =
           d \<lparr>customers := deleteOne (\<lambda>c. cid c = i) (customers d),
              leads := filter (\<lambda>l. customerId l \<noteq> i) (leads d),
              calls := calls d @ [CustomerFindById p, LeadDeleteMany p,
                                  CustomerFindByIdAndDelete p]\<rparr>"
  using assms
  by (auto simp: deleteCustomer_def Customer_findById_def Lead_deleteMany_def
      Customer_findByIdAndDelete_def Let_def logged_def
      split: if_splits sum.splits option.splits)

lemma getLead_customer_missing:
  assumes "castObjectId L p = Some i" and "find (\<lambda>c. cid c = i) (customers d) = None"
  shows "status (fst (getLead L u p q d)) = 404"
  using assms by (simp add: getLead_def Customer_findById_def)

lemma getLead_lead_missing:
  assumes "castObjectId L q = Some j" and "\<forall>l \<in> set (leads d). lid l \<noteq> j"
  shows "status (fst (getLead L u p q d)) \<noteq> 200"
proof -
  have "find (\<lambda>l. lid l = j \<and> customerId l = k) (leads d) = None" for k
    using assms(2) by (auto simp: find_None_iff)
  with assms(1) show ?thesis
    by (auto simp: getLead_def Customer_findById_def Lead_findOne_def Lead_byIds_def
        split: if_splits sum.splits option.splits)
qed

text \<open>
  C3. The ids of a collection are distinct, as the database keeps them. After a DELETE on
  a customer that is answered 200, the handler has called \<open>Lead.deleteMany\<close> and then
  \<open>Customer.findByIdAndDelete\<close>; the leads left are those of the other customers and the
  customer is gone. A lead that was removed is then fetched in vain: under the path of
  its customer the answer is 404, for every identity, and under no path is it 200.
\<close>

theorem C3_cascade_delete:
  assumes "castObjectId L p = Some i"
    and "distinct (map cid (customers d))"
    and "distinct (map lid (leads d))"
    and "status (fst (router L u now (DELETE_customer p) d)) = 200"
  shows "leads (snd (router L u now (DELETE_customer p) d))
           = filter (\<lambda>l. customerId l \<noteq> i) (leads d) \<and>
         customers (snd (router L u now (DELETE_customer p) d))
           = filter (\<lambda>c. cid c \<noteq> i) (customers d) \<and>
         calls (snd (router L u now (DELETE_customer p) d))
           = calls d @ [CustomerFindById p, LeadDeleteMany p, CustomerFindByIdAndDelete p] \<and>
         (\<forall>l q u' t. l \<in> set (leads d) \<and> customerId l = i \<and> castObjectId L q = Some (lid l) \<longrightarrow>
            status (fst (router L u' t (GET_lead p q)
                           (snd (router L u now (DELETE_customer p) d)))) = 404 \<and>
            (\<forall>p'. status (fst (router L u' t (GET_lead p' q)
                                  (snd (router L u now (DELETE_customer p) d)))) \<noteq> 200))"
proof -
  let ?d' = "snd (deleteCustomer L u p d)"
  have d': "?d' = d \<lparr>customers := deleteOne (\<lambda>c. cid c = i) (customers d),
                      leads := filter (\<lambda>l. customerId l \<noteq> i) (leads d),
                      calls := calls d @ [CustomerFindById p, LeadDeleteMany p,
                                          CustomerFindByIdAndDelete p]\<rparr>"
    using deleteCustomer_ok [OF assms(1)] assms(4) by simp
  have ls: "leads ?d' = filter (\<lambda>l. customerId l \<noteq> i) (leads d)"
    by (simp add: d')
  have cs: "customers ?d' = filter (\<lambda>c. cid c \<noteq> i) (customers d)"
    by (simp add: d' deleteOne_filter [OF assms(2)])
  have gone: "find (\<lambda>c. cid c = i) (customers ?d') = None"
    unfolding cs by (auto simp: find_None_iff)
  have fetch: "status (fst (router L u' t (GET_lead p q) ?d')) = 404 \<and>
               (\<forall>p'. status (fst (router L u' t (GET_lead p' q) ?d')) \<noteq> 200)"
    if l: "l \<in> set (leads d)" "customerId l = i" "castObjectId L q = Some (lid l)"
    for l q u' t
  proof -
    have "\<forall>l' \<in> set (leads ?d'). lid l' \<noteq> lid l"
    proof
      fix l' assume "l' \<in> set (leads ?d')"
      then have "l' \<in> set (leads d)" and "customerId l' \<noteq> i"
        unfolding ls by auto
      with l(1,2) have "l' \<noteq> l" by auto
      with assms(3) \<open>l' \<in> set (leads d)\<close> l(1) show "lid l' \<noteq> lid l"
        by (auto simp: distinct_map inj_on_def)
    qed
    then have "status (fst (getLead L u' p' q ?d')) \<noteq> 200" for p'
      using l(3) by (intro getLead_lead_missing)
    moreover have "status (fst (getLead L u' p q ?d')) = 404"
      using assms(1) gone by (rule getLead_customer_missing)
    ultimately show ?thesis by simp
  qed
  have cl: "calls ?d' = calls d @ [CustomerFindById p, LeadDeleteMany p,
                                    CustomerFindByIdAndDelete p]"
    by (simp add: d')
  show ?thesis
    unfolding router.simps using ls cs cl fetch [unfolded router.simps] by blast
qed

theorem C3_cascade_delete_witness:
  "status (fst (router L0 alice 500 (DELETE_customer ''10'') db0)) = 200 \<and>
   deal \<in> set (leads db0) \<and> customerId deal = 10 \<and>
   leads (snd (router L0 alice 500 (DELETE_customer ''10'') db0)) = [offer] \<and>
   customers (snd (router L0 alice 500 (DELETE_customer ''10'') db0)) = [globex] \<and>
   status (fst (router L0 alice 600 (GET_lead ''10'' ''30'')
                  (snd (router L0 alice 500 (DELETE_customer ''10'') db0)))) = 404"
proof -
  have h1: "castObjectId L0 ''10'' = Some 10" by code_simp
  have h2: "distinct (map cid (customers db0))" by code_simp
  have h3: "distinct (map lid (leads db0))" by code_simp
  have h4: "status (fst (router L0 alice 500 (DELETE_customer ''10'') db0)) = 200"
    by code_simp
  have l: "deal \<in> set (leads db0)" "customerId deal = 10" "castObjectId L0 ''30'' = Some (lid deal)"
    by code_simp+
  have f1: "filter (\<lambda>l. customerId l \<noteq> 10) (leads db0) = [offer]" by code_simp
  have f2: "filter (\<lambda>c. cid c \<noteq> 10) (customers db0) = [globex]" by code_simp
  from C3_cascade_delete [OF h1 h2 h3 h4] l have
    "status (fst (router L0 alice 600 (GET_lead ''10'' ''30'')
                    (snd (router L0 alice 500 (DELETE_customer ''10'') db0)))) = 404"
    by blast
  with C3_cascade_delete [OF h1 h2 h3 h4] h4 l f1 f2 show ?thesis by simp
qed

section \<open>What an accepted object holds\<close>

lemma joi_value_lookup:
  assumes "distinct (map fst sch)" and "(k, ks) \<in> set sch"
  shows "map_of (snd (joi_validate L sch obj)) k = snd (validate_key L k ks (map_of obj k))"
proof -
  let ?g = "\<lambda>(k, ks). case snd (validate_key L k ks (map_of obj k)) of
                          None \<Rightarrow> [] | Some x \<Rightarrow> [(k, x)]"
  have keys: "k' \<in> fst ` set xs" if "(k', x) \<in> set (concat (map ?g xs))" for k' x xs
    using that by (induction xs) (auto split: option.splits)
  have "map_of (concat (map ?g xs)) k = snd (validate_key L k ks (map_of obj k))"
    if "distinct (map fst xs)" and "(k, ks) \<in> set xs" for xs
    using that
  proof (induction xs)
    case Nil
    then show ?case by simp
  next
    case (Cons a xs)
    obtain k' ks' where a: "a = (k', ks')" by (cases a)
    show ?case
    proof (cases "k' = k")
      case True
      with Cons.prems a have same: "ks' = ks"
        by (auto simp: image_iff)
      from Cons.prems a True have "k \<notin> fst ` set xs" by simp
      with keys [of k _ xs] have "k \<notin> fst ` set (concat (map ?g xs))" by force
      then have "map_of (concat (map ?g xs)) k = None"
        by (simp add: map_of_eq_None_iff)
      with a True same show ?thesis
        by (simp split: option.splits)
    next
      case False
      with Cons a show ?thesis
        by (auto split: option.splits)
    qed
  qed
  from this [OF assms] show ?thesis
    by (simp add: joi_validate_def key_results_def Let_def comp_def case_prod_unfold
        cong: option.case_cong)
qed

lemma joi_key_accepted:
  assumes "fst (joi_validate L sch obj) = []" and "(k, ks) \<in> set sch"
  shows "fst (validate_key L k ks (map_of obj k)) = []"
proof (rule ccontr)
  assume "fst (validate_key L k ks (map_of obj k)) \<noteq> []"
  then obtain e where "e \<in> set (fst (validate_key L k ks (map_of obj k)))"
    by (cases "fst (validate_key L k ks (map_of obj k))") auto
  from key_errors_kept [OF assms(2) this] assms(1) show False by simp
qed

text \<open>A number key with a default and no \<open>valid\<close> values: the default, or a number that
  passes the rules.\<close>

lemma validate_key_number:
  assumes "fst (validate_key L k ks x) = []"
    and "jtype ks = JoiNumber rs" and "valids ks = []" and "\<not> required ks"
    and "dflt ks = Some (JNum n0)"
  shows "\<exists>n. snd (validate_key L k ks x) = Some (JNum n) \<and>
             (n = n0 \<or> concat (map (nrule_error n) rs) = [])"
proof (cases x)
  case None
  with assms show ?thesis by (simp add: validate_key_def)
next
  case (Some y)
  let ?z = "coerce L (JoiNumber rs) y"
  from assms Some have b: "base_error (JoiNumber rs) ?z = None"
    by (auto simp: validate_key_def Let_def split: option.splits if_splits)
  then obtain n where z: "?z = JNum n"
    by (cases ?z) (auto split: if_splits)
  from assms Some b z have "concat (map (nrule_error n) rs) = []"
    by (auto simp: validate_key_def Let_def split: if_splits)
  with assms Some b z show ?thesis
    by (auto simp: validate_key_def Let_def)
qed

lemma int_of_lookup:
  "map_of v k = Some (JNum n) \<Longrightarrow> n = of_int \<lfloor>n\<rfloor> \<Longrightarrow> int_of v k = Some \<lfloor>n\<rfloor>"
  by (simp add: int_of_def)

lemma page_rules:
  assumes "n = 1 \<or> concat (map (nrule_error n) [NInteger, NMin 1]) = []"
  shows "n = of_int \<lfloor>n\<rfloor> \<and> 1 \<le> \<lfloor>n\<rfloor>"
  using assms by (auto split: if_splits)

lemma limit_rules:
  assumes "n = 10 \<or> concat (map (nrule_error n) [NInteger, NMin 1, NMax 100]) = []"
  shows "n = of_int \<lfloor>n\<rfloor> \<and> 1 \<le> \<lfloor>n\<rfloor> \<and> \<lfloor>n\<rfloor> \<le> 100"
  using assms by (auto split: if_splits)

text \<open>After the query validation, \<open>page\<close> and \<open>limit\<close> are integers in their ranges.\<close>

lemma pagination_accepted:
  assumes "validateQuery L paginationSchema query = Inr v"
  shows "\<exists>page limit. int_of v ''page'' = Some page \<and> int_of v ''limit'' = Some limit \<and>
                      1 \<le> page \<and> 1 \<le> limit \<and> limit \<le> 100"
proof -
  let ?pg = "(joiNumber [NInteger, NMin 1]) \<lparr>dflt := Some (JNum 1)\<rparr>"
  let ?lm = "(joiNumber [NInteger, NMin 1, NMax 100]) \<lparr>dflt := Some (JNum 10)\<rparr>"
  from validateQuery_Inr [OF assms] have
    ok: "fst (joi_validate L paginationSchema query) = []"
    and v: "v = snd (joi_validate L paginationSchema query)" by simp_all
  have d: "distinct (map fst paginationSchema)"
    by (simp add: paginationSchema_def)
  have mp: "(''page'', ?pg) \<in> set paginationSchema" and ml: "(''limit'', ?lm) \<in> set paginationSchema"
    by (simp_all add: paginationSchema_def)
  from validate_key_number [OF joi_key_accepted [OF ok mp], of "[NInteger, NMin 1]" 1]
  obtain n where n: "map_of v ''page'' = Some (JNum n)"
    "n = 1 \<or> concat (map (nrule_error n) [NInteger, NMin 1]) = []"
    unfolding v joi_value_lookup [OF d mp] by (auto simp: joiNumber_def)
  from validate_key_number [OF joi_key_accepted [OF ok ml], of "[NInteger, NMin 1, NMax 100]" 10]
  obtain m where m: "map_of v ''limit'' = Some (JNum m)"
    "m = 10 \<or> concat (map (nrule_error m) [NInteger, NMin 1, NMax 100]) = []"
    unfolding v joi_value_lookup [OF d ml] by (auto simp: joiNumber_def)
  from page_rules [OF n(2)] limit_rules [OF m(2)] int_of_lookup [OF n(1)] int_of_lookup [OF m(1)]
  show ?thesis by blast
qed

lemma leadFilter_accepted:
  assumes "validateQuery L leadFilterSchema query = Inr v"
  shows "\<exists>page limit. int_of v ''page'' = Some page \<and> int_of v ''limit'' = Some limit \<and>
                      1 \<le> page \<and> 1 \<le> limit \<and> limit \<le> 100"
proof -
  let ?pg = "(joiNumber [NInteger, NMin 1]) \<lparr>dflt := Some (JNum 1)\<rparr>"
  let ?lm = "(joiNumber [NInteger, NMin 1, NMax 100]) \<lparr>dflt := Some (JNum 10)\<rparr>"
  from validateQuery_Inr [OF assms] have
    ok: "fst (joi_validate L leadFilterSchema query) = []"
    and v: "v = snd (joi_validate L leadFilterSchema query)" by simp_all
  have d: "distinct (map fst leadFilterSchema)"
    by (simp add: leadFilterSchema_def)
  have mp: "(''page'', ?pg) \<in> set leadFilterSchema" and ml: "(''limit'', ?lm) \<in> set leadFilterSchema"
    by (simp_all add: leadFilterSchema_def)
  from validate_key_number [OF joi_key_accepted [OF ok mp], of "[NInteger, NMin 1]" 1]
  obtain n where n: "map_of v ''page'' = Some (JNum n)"
    "n = 1 \<or> concat (map (nrule_error n) [NInteger, NMin 1]) = []"
    unfolding v joi_value_lookup [OF d mp] by (auto simp: joiNumber_def)
  from validate_key_number [OF joi_key_accepted [OF ok ml], of "[NInteger, NMin 1, NMax 100]" 10]
  obtain m where m: "map_of v ''limit'' = Some (JNum m)"
    "m = 10 \<or> concat (map (nrule_error m) [NInteger, NMin 1, NMax 100]) = []"
    unfolding v joi_value_lookup [OF d ml] by (auto simp: joiNumber_def)
  from page_rules [OF n(2)] limit_rules [OF m(2)] int_of_lookup [OF n(1)] int_of_lookup [OF m(1)]
  show ?thesis by blast
qed

section \<open>The two list handlers\<close>

lemma window_page:
  assumes "1 \<le> page" and "1 \<le> limit"
  shows "window ((page - 1) * limit) limit xs
           = Inr (take (nat limit) (drop (nat ((page - 1) * limit)) xs))"
proof -
  from assms have "0 \<le> (page - 1) * limit" by simp
  moreover from assms have "limit \<noteq> 0" and "\<bar>limit\<bar> = limit" by simp_all
  ultimately show ?thesis by (simp add: window_def mongo_limit_def)
qed

lemma length_page_of: "1 \<le> limit \<Longrightarrow> int (length (page_of page limit xs)) \<le> limit"
  by (simp add: page_of_def)

lemma page_of_beyond:
  "1 \<le> page \<Longrightarrow> 1 \<le> limit \<Longrightarrow> int (length xs) \<le> (page - 1) * limit \<Longrightarrow> page_of page limit xs = []"
  by (simp add: page_of_def)

lemma length_newest_first [simp]: "length (newest_first t xs) = length xs"
  by (simp add: newest_first_def)

lemma set_newest_first [simp]: "set (newest_first t xs) = set xs"
  by (simp add: newest_first_def)

lemma listCustomers_page:
  assumes "int_of v ''page'' = Some page" and "int_of v ''limit'' = Some limit"
    and "1 \<le> page" and "1 \<le> limit"
    and "Customer_filter L (listQuery u v) = Some P"
  shows "fst (listCustomers L u v d) =
           succeed 200
             (CustomerList
                (map (\<lambda>c. (c, length (filter (\<lambda>l. customerId l = cid c) (leads d))))
                   (page_of page limit (newest_first createdAt (filter P (customers d)))))
                (page_info page limit (length (filter P (customers d)))))
             None"
  using assms
  by (simp add: listCustomers_def Customer_find_def Customer_countDocuments_def
      window_page page_of_def)

lemma listCustomers_no_filter:
  assumes "Customer_filter L (listQuery u v) = None"
  shows "status (fst (listCustomers L u v d)) = 500"
  using assms
  by (auto simp: listCustomers_def Customer_find_def Customer_countDocuments_def
      split: option.splits)

lemma leads_filter:
  assumes "castObjectId L p = Some i"
  shows "Lead_filter L (leadsQuery p v)
           = Inr (\<lambda>l. customerId l = i \<and>
                       (case truthy v ''status'' of None \<Rightarrow> True | Some s \<Rightarrow> lstatus l = s))"
  using assms by (simp add: Lead_filter_def leadsQuery_def)

lemma listLeads_page:
  assumes "castObjectId L p = Some i" and "find (\<lambda>c. cid c = i) (customers d) = Some c"
    and "\<not> denied u c"
    and "int_of v ''page'' = Some page" and "int_of v ''limit'' = Some limit"
    and "1 \<le> page" and "1 \<le> limit"
    and "Lead_filter L (leadsQuery p v) = Inr P"
  shows "fst (listLeads L u p v d) =
           succeed 200
             (LeadList (page_of page limit (newest_first lcreatedAt (filter P (leads d))))
                (page_info page limit (length (filter P (leads d)))))
             None"
  using assms
  by (simp add: listLeads_def findById_found Lead_find_def Lead_countDocuments_def
      window_page page_of_def)

lemma listLeads_200:
  assumes "status (fst (listLeads L u p v d)) = 200"
  shows "\<exists>i c. castObjectId L p = Some i \<and> find (\<lambda>c. cid c = i) (customers d) = Some c \<and>
               \<not> denied u c"
  using assms
  by (auto simp: listLeads_def Customer_findById_def split: option.splits if_splits)

lemma page_info_fields:
  "currentPage (page_info page limit tot) = page"
  "totalPages (page_info page limit tot) = \<lceil>real tot / real_of_int limit\<rceil>"
  "totalRecords (page_info page limit tot) = tot"
  "hasNextPage (page_info page limit tot) = (page < totalPages (page_info page limit tot))"
  "hasPrevPage (page_info page limit tot) = (1 < page)"
  by (simp_all add: page_info_def)

lemma neg_div_ceiling:
  fixes a l :: int
  assumes "0 < l"
  shows "- ((- a) div l) = (a + l - 1) div l"
proof -
  define q r where "q = a div l" and "r = a mod l"
  have a: "a = l * q + r" and r: "0 \<le> r" "r < l"
    using assms by (simp_all add: q_def r_def)
  show ?thesis
  proof (cases "r = 0")
    case True
    have "- a = l * (- q) + 0" using a True by simp
    then have 1: "(- a) div l = - q"
      by (rule int_div_pos_eq [where r = 0]) (use assms in simp_all)
    have "a + l - 1 = l * q + (l - 1)" using a True by simp
    then have 2: "(a + l - 1) div l = q"
      by (rule int_div_pos_eq [where r = "l - 1"]) (use assms in simp_all)
    from 1 2 show ?thesis by simp
  next
    case False
    with r have pos: "0 < r" by simp
    have "- a = l * (- (q + 1)) + (l - r)" using a by (simp add: algebra_simps)
    then have 1: "(- a) div l = - (q + 1)"
      by (rule int_div_pos_eq [where r = "l - r"]) (use assms pos r in simp_all)
    have "a + l - 1 = l * (q + 1) + (r - 1)" using a by (simp add: algebra_simps)
    then have 2: "(a + l - 1) div l = q + 1"
      by (rule int_div_pos_eq [where r = "r - 1"]) (use assms pos r in simp_all)
    from 1 2 show ?thesis by simp
  qed
qed

lemma ceiling_pages:
  assumes "1 \<le> limit"
  shows "\<lceil>real tot / real_of_int limit\<rceil> = (int tot + limit - 1) div limit"
proof -
  have "real tot / real_of_int limit = of_int (int tot) / of_int limit" by simp
  then have "\<lceil>real tot / real_of_int limit\<rceil> = - ((- int tot) div limit)"
    by (simp only: ceiling_divide_eq_div)
  also have "\<dots> = (int tot + limit - 1) div limit"
    using assms by (intro neg_div_ceiling) simp
  finally show ?thesis .
qed

lemma beyond_last_page:
  assumes "1 \<le> limit" and "totalPages (page_info page limit tot) < page"
  shows "int tot \<le> (page - 1) * limit"
proof -
  from assms(2) have "\<lceil>real tot / real_of_int limit\<rceil> \<le> page - 1"
    by (simp add: page_info_def)
  then have "real tot / real_of_int limit \<le> real_of_int (page - 1)"
    by (simp only: ceiling_le_iff)
  with assms(1) have "real tot \<le> real_of_int (page - 1) * real_of_int limit"
    by (simp add: pos_divide_le_eq)
  then have "real_of_int (int tot) \<le> real_of_int ((page - 1) * limit)"
    by simp
  then show ?thesis by (simp only: of_int_le_iff)
qed

text \<open>
  C4. A list request answered 200 had its query accepted, so \<open>page\<close> is at least 1 and
  \<open>limit\<close> is between 1 and 100. The records returned are those of the matching records,
  newest first, from offset \<open>(page - 1) * limit\<close> on, at most \<open>limit\<close> of them, and the
  pagination object is \<open>page_info\<close> of the page, the limit and the number of matching
  records: the current page, the ceiling of total by limit, whether the page is below
  that, and whether it is above 1. With 25 records and a limit of 10 there are 3 pages;
  page 1 has a next and no previous page, page 3 has no next page.
\<close>

theorem C4_pagination:
  "(validateQuery L paginationSchema query = Inr v \<and>
    status (fst (router L u now (GET_customers query) d)) = 200 \<longrightarrow>
      (\<exists>page limit P rows.
         int_of v ''page'' = Some page \<and> int_of v ''limit'' = Some limit \<and>
         1 \<le> page \<and> 1 \<le> limit \<and> limit \<le> 100 \<and>
         Customer_filter L (listQuery u v) = Some P \<and>
         data (fst (router L u now (GET_customers query) d))
           = CustomerList rows (page_info page limit (length (filter P (customers d)))) \<and>
         map fst rows = take (nat limit) (drop (nat ((page - 1) * limit))
                          (newest_first createdAt (filter P (customers d)))) \<and>
         int (length rows) \<le> limit)) \<and>
   (validateQuery L leadFilterSchema query' = Inr w \<and>
    status (fst (router L u now (GET_leads p query') d)) = 200 \<longrightarrow>
      (\<exists>page limit P rows.
         int_of w ''page'' = Some page \<and> int_of w ''limit'' = Some limit \<and>
         1 \<le> page \<and> 1 \<le> limit \<and> limit \<le> 100 \<and>
         Lead_filter L (leadsQuery p w) = Inr P \<and>
         data (fst (router L u now (GET_leads p query') d))
           = LeadList rows (page_info page limit (length (filter P (leads d)))) \<and>
         rows = take (nat limit) (drop (nat ((page - 1) * limit))
                  (newest_first lcreatedAt (filter P (leads d)))) \<and>
         int (length rows) \<le> limit)) \<and>
   (\<forall>page limit tot. 1 \<le> limit \<longrightarrow>
      page_info page limit tot =
        \<lparr>currentPage = page, totalPages = (int tot + limit - 1) div limit, totalRecords = tot,
         hasNextPage = (page < (int tot + limit - 1) div limit), hasPrevPage = (1 < page)\<rparr> \<and>
      (int tot + limit - 1) div limit = \<lceil>real tot / real_of_int limit\<rceil>) \<and>
   page_info 1 10 25 =
     \<lparr>currentPage = 1, totalPages = 3, totalRecords = 25, hasNextPage = True,
      hasPrevPage = False\<rparr> \<and>
   hasNextPage (page_info 3 10 25) = False"
proof (intro conjI impI allI)
  assume a: "validateQuery L paginationSchema query = Inr v \<and>
             status (fst (router L u now (GET_customers query) d)) = 200"
  then have r: "router L u now (GET_customers query) d = listCustomers L u v d" by simp
  from pagination_accepted [of L query v] a obtain page limit where
    pl: "int_of v ''page'' = Some page" "int_of v ''limit'' = Some limit"
        "1 \<le> page" "1 \<le> limit" "limit \<le> 100"
    by blast
  from a obtain P where P: "Customer_filter L (listQuery u v) = Some P"
    using listCustomers_no_filter [of L u v d] unfolding r
    by (cases "Customer_filter L (listQuery u v)") auto
  let ?all = "newest_first createdAt (filter P (customers d))"
  let ?rows = "map (\<lambda>c. (c, length (filter (\<lambda>l. customerId l = cid c) (leads d))))
                 (page_of page limit ?all)"
  have "data (fst (router L u now (GET_customers query) d))
          = CustomerList ?rows (page_info page limit (length (filter P (customers d))))"
    unfolding r listCustomers_page [OF pl(1-4) P] by (simp add: succeed_def)
  moreover have "map fst ?rows = take (nat limit) (drop (nat ((page - 1) * limit)) ?all)"
    by (simp add: comp_def page_of_def)
  moreover have "int (length ?rows) \<le> limit"
    using length_page_of [OF pl(4), of page ?all] by simp
  ultimately show "\<exists>page limit P rows.
         int_of v ''page'' = Some page \<and> int_of v ''limit'' = Some limit \<and>
         1 \<le> page \<and> 1 \<le> limit \<and> limit \<le> 100 \<and>
         Customer_filter L (listQuery u v) = Some P \<and>
         data (fst (router L u now (GET_customers query) d))
           = CustomerList rows (page_info page limit (length (filter P (customers d)))) \<and>
         map fst rows = take (nat limit) (drop (nat ((page - 1) * limit))
                          (newest_first createdAt (filter P (customers d)))) \<and>
         int (length rows) \<le> limit"
    using pl P by blast
next
  assume a: "validateQuery L leadFilterSchema query' = Inr w \<and>
             status (fst (router L u now (GET_leads p query') d)) = 200"
  then have r: "router L u now (GET_leads p query') d = listLeads L u p w d" by simp
  from leadFilter_accepted [of L query' w] a obtain page limit where
    pl: "int_of w ''page'' = Some page" "int_of w ''limit'' = Some limit"
        "1 \<le> page" "1 \<le> limit" "limit \<le> 100"
    by blast
  from a listLeads_200 [of L u p w d] obtain i c where
    c: "castObjectId L p = Some i" "find (\<lambda>c. cid c = i) (customers d) = Some c" "\<not> denied u c"
    unfolding r by blast
  from leads_filter [OF c(1)] obtain P where P: "Lead_filter L (leadsQuery p w) = Inr P"
    by blast
  let ?rows = "page_of page limit (newest_first lcreatedAt (filter P (leads d)))"
  have "data (fst (router L u now (GET_leads p query') d))
          = LeadList ?rows (page_info page limit (length (filter P (leads d))))"
    unfolding r listLeads_page [OF c pl(1-4) P] by (simp add: succeed_def)
  moreover have "?rows = take (nat limit) (drop (nat ((page - 1) * limit))
                           (newest_first lcreatedAt (filter P (leads d))))"
    by (simp add: page_of_def)
  moreover have "int (length ?rows) \<le> limit"
    by (rule length_page_of [OF pl(4)])
  ultimately show "\<exists>page limit P rows.
         int_of w ''page'' = Some page \<and> int_of w ''limit'' = Some limit \<and>
         1 \<le> page \<and> 1 \<le> limit \<and> limit \<le> 100 \<and>
         Lead_filter L (leadsQuery p w) = Inr P \<and>
         data (fst (router L u now (GET_leads p query') d))
           = LeadList rows (page_info page limit (length (filter P (leads d)))) \<and>
         rows = take (nat limit) (drop (nat ((page - 1) * limit))
                  (newest_first lcreatedAt (filter P (leads d)))) \<and>
         int (length rows) \<le> limit"
    using pl P by blast
next
  fix page limit :: int and tot :: nat
  assume "1 \<le> limit"
  then show "page_info page limit tot =
        \<lparr>currentPage = page, totalPages = (int tot + limit - 1) div limit, totalRecords = tot,
         hasNextPage = (page < (int tot + limit - 1) div limit), hasPrevPage = (1 < page)\<rparr>"
    by (simp add: page_info_def ceiling_pages)
next
  fix page limit :: int and tot :: nat
  assume "1 \<le> limit"
  then show "(int tot + limit - 1) div limit = \<lceil>real tot / real_of_int limit\<rceil>"
    by (simp add: ceiling_pages)
next
  show "page_info 1 10 25 =
     \<lparr>currentPage = 1, totalPages = 3, totalRecords = 25, hasNextPage = True,
      hasPrevPage = False\<rparr>"
    by (simp add: page_info_def)
next
  show "hasNextPage (page_info 3 10 25) = False"
    by (simp add: page_info_def)
qed

text \<open>The admin lists 25 customers ten at a time: the first page.\<close>

theorem C4_pagination_witness:
  "status (fst (router L0 carol 500 (GET_customers [(''page'', JNum 1), (''limit'', JNum 10)])
                  db25)) = 200 \<and>
   (\<exists>rows. data (fst (router L0 carol 500
                         (GET_customers [(''page'', JNum 1), (''limit'', JNum 10)]) db25))
            = CustomerList rows
                \<lparr>currentPage = 1, totalPages = 3, totalRecords = 25, hasNextPage = True,
                 hasPrevPage = False\<rparr> \<and>
            map (\<lambda>row. cid (fst row)) rows = [24, 23, 22, 21, 20, 19, 18, 17, 16, 15])"
proof -
  let ?q = "[(''page'', JNum 1), (''limit'', JNum 10)]"
  let ?v = "[(''page'', JNum 1), (''limit'', JNum 10)]"
  have h1: "validateQuery L0 paginationSchema ?q = Inr ?v" by code_simp
  have h2: "status (fst (router L0 carol 500 (GET_customers ?q) db25)) = 200" by code_simp
  from C4_pagination [of L0 ?q ?v carol 500 db25] h1 h2 obtain page limit P rows where
    w: "int_of ?v ''page'' = Some page" "int_of ?v ''limit'' = Some limit"
       "Customer_filter L0 (listQuery carol ?v) = Some P"
       "data (fst (router L0 carol 500 (GET_customers ?q) db25))
          = CustomerList rows (page_info page limit (length (filter P (customers db25))))"
       "map fst rows = take (nat limit) (drop (nat ((page - 1) * limit))
                         (newest_first createdAt (filter P (customers db25))))"
    by blast
  have "int_of ?v ''page'' = Some 1" and "int_of ?v ''limit'' = Some 10" by code_simp+
  with w(1,2) have pl: "page = 1" "limit = 10" by simp_all
  have "Customer_filter L0 (listQuery carol ?v) = Some (owned_by None)"
    by (simp add: Customer_filter_def listQuery_def truthy_def carol_def)
  with w(3) have P: "P = owned_by None" by simp
  have n: "length (filter (owned_by None) (customers db25)) = 25" by code_simp
  have pg: "page_info 1 10 25 =
     \<lparr>currentPage = 1, totalPages = 3, totalRecords = 25, hasNextPage = True,
      hasPrevPage = False\<rparr>"
    by (simp add: page_info_def)
  have ids: "map cid (take (nat 10) (drop (nat ((1 - 1) * 10))
               (newest_first createdAt (filter (owned_by None) (customers db25)))))
             = [24, 23, 22, 21, 20, 19, 18, 17, 16, 15]"
    by code_simp
  have "map (\<lambda>row. cid (fst row)) rows = map cid (map fst rows)" by (simp add: comp_def)
  with w(5) ids have m: "map (\<lambda>row. cid (fst row)) rows = [24, 23, 22, 21, 20, 19, 18, 17, 16, 15]"
    unfolding pl P by simp
  from w(4) have dt: "data (fst (router L0 carol 500 (GET_customers ?q) db25))
          = CustomerList rows
              \<lparr>currentPage = 1, totalPages = 3, totalRecords = 25, hasNextPage = True,
               hasPrevPage = False\<rparr>"
    unfolding pl P n pg .
  show ?thesis
  proof (intro conjI exI [of _ rows])
    show "status (fst (router L0 carol 500 (GET_customers ?q) db25)) = 200" by (rule h2)
    show "data (fst (router L0 carol 500 (GET_customers ?q) db25))
          = CustomerList rows
              \<lparr>currentPage = 1, totalPages = 3, totalRecords = 25, hasNextPage = True,
               hasPrevPage = False\<rparr>" by (rule dt)
    show "map (\<lambda>row. cid (fst row)) rows = [24, 23, 22, 21, 20, 19, 18, 17, 16, 15]"
      by (rule m)
  qed
qed

text \<open>
  C9, as the code has it. A page beyond the last one is no error of its own. When the
  query has been accepted and the request reaches the paginated query with a filter the
  database can evaluate (for the customers: the search pattern, if there is one,
  compiles; for the leads: the customer of the path exists and the identity is its owner
  or an admin), a \<open>page\<close> above \<open>totalPages\<close> is answered 200 with an empty list and the
  pagination of the matching records.
\<close>

theorem C9_page_beyond_last:
  "(validateQuery L paginationSchema query = Inr v \<and>
    int_of v ''page'' = Some page \<and> int_of v ''limit'' = Some limit \<and>
    Customer_filter L (listQuery u v) = Some P \<and>
    totalPages (page_info page limit (length (filter P (customers d)))) < page \<longrightarrow>
      int (length (filter P (customers d))) \<le> (page - 1) * limit \<and>
      status (fst (router L u now (GET_customers query) d)) = 200 \<and>
      success (fst (router L u now (GET_customers query) d)) \<and>
      data (fst (router L u now (GET_customers query) d))
        = CustomerList [] (page_info page limit (length (filter P (customers d))))) \<and>
   (validateQuery L leadFilterSchema query' = Inr w \<and>
    int_of w ''page'' = Some page' \<and> int_of w ''limit'' = Some limit' \<and>
    castObjectId L p = Some i \<and> find (\<lambda>c. cid c = i) (customers d) = Some c \<and>
    (role u = ''admin'' \<or> uid u = ownerId c) \<and>
    Lead_filter L (leadsQuery p w) = Inr P' \<and>
    totalPages (page_info page' limit' (length (filter P' (leads d)))) < page' \<longrightarrow>
      int (length (filter P' (leads d))) \<le> (page' - 1) * limit' \<and>
      status (fst (router L u now (GET_leads p query') d)) = 200 \<and>
      success (fst (router L u now (GET_leads p query') d)) \<and>
      data (fst (router L u now (GET_leads p query') d))
        = LeadList [] (page_info page' limit' (length (filter P' (leads d)))))"
proof (intro conjI impI)
  assume a: "validateQuery L paginationSchema query = Inr v \<and>
    int_of v ''page'' = Some page \<and> int_of v ''limit'' = Some limit \<and>
    Customer_filter L (listQuery u v) = Some P \<and>
    totalPages (page_info page limit (length (filter P (customers d)))) < page"
  then have r: "router L u now (GET_customers query) d = listCustomers L u v d" by simp
  from pagination_accepted [of L query v] a have pl: "1 \<le> page" "1 \<le> limit"
    by auto
  from a have b: "int (length (filter P (customers d))) \<le> (page - 1) * limit"
    by (intro beyond_last_page [OF pl(2)]) simp
  then have e: "page_of page limit (newest_first createdAt (filter P (customers d))) = []"
    by (intro page_of_beyond [OF pl]) simp
  from a have f: "fst (listCustomers L u v d) =
      succeed 200 (CustomerList [] (page_info page limit (length (filter P (customers d))))) None"
    using listCustomers_page [of v page limit L u P d] pl unfolding e by simp
  show "int (length (filter P (customers d))) \<le> (page - 1) * limit" by (rule b)
  show "status (fst (router L u now (GET_customers query) d)) = 200"
    unfolding r f by simp
  show "success (fst (router L u now (GET_customers query) d))"
    unfolding r f by (simp add: succeed_def)
  show "data (fst (router L u now (GET_customers query) d))
        = CustomerList [] (page_info page limit (length (filter P (customers d))))"
    unfolding r f by (simp add: succeed_def)
next
  assume a: "validateQuery L leadFilterSchema query' = Inr w \<and>
    int_of w ''page'' = Some page' \<and> int_of w ''limit'' = Some limit' \<and>
    castObjectId L p = Some i \<and> find (\<lambda>c. cid c = i) (customers d) = Some c \<and>
    (role u = ''admin'' \<or> uid u = ownerId c) \<and>
    Lead_filter L (leadsQuery p w) = Inr P' \<and>
    totalPages (page_info page' limit' (length (filter P' (leads d)))) < page'"
  then have r: "router L u now (GET_leads p query') d = listLeads L u p w d" by simp
  from leadFilter_accepted [of L query' w] a have pl: "1 \<le> page'" "1 \<le> limit'"
    by auto
  from a have nd: "\<not> denied u c" by (simp add: denied_iff)
  from a have b: "int (length (filter P' (leads d))) \<le> (page' - 1) * limit'"
    by (intro beyond_last_page [OF pl(2)]) simp
  then have e: "page_of page' limit' (newest_first lcreatedAt (filter P' (leads d))) = []"
    by (intro page_of_beyond [OF pl]) simp
  from a nd have f: "fst (listLeads L u p w d) =
      succeed 200 (LeadList [] (page_info page' limit' (length (filter P' (leads d))))) None"
    using listLeads_page [of L p i d c u w page' limit' P'] pl unfolding e by simp
  show "int (length (filter P' (leads d))) \<le> (page' - 1) * limit'" by (rule b)
  show "status (fst (router L u now (GET_leads p query') d)) = 200"
    unfolding r f by simp
  show "success (fst (router L u now (GET_leads p query') d))"
    unfolding r f by (simp add: succeed_def)
  show "data (fst (router L u now (GET_leads p query') d))
        = LeadList [] (page_info page' limit' (length (filter P' (leads d))))"
    unfolding r f by (simp add: succeed_def)
qed

text \<open>Page 4 of the 25 customers, ten at a time, and page 2 of the leads of customer 10.\<close>

theorem C9_page_beyond_last_witness:
  "status (fst (router L0 carol 500 (GET_customers [(''page'', JNum 4), (''limit'', JNum 10)])
                  db25)) = 200 \<and>
   data (fst (router L0 carol 500 (GET_customers [(''page'', JNum 4), (''limit'', JNum 10)])
                db25))
     = CustomerList []
         \<lparr>currentPage = 4, totalPages = 3, totalRecords = 25, hasNextPage = False,
          hasPrevPage = True\<rparr> \<and>
   status (fst (router L0 alice 500 (GET_leads ''10'' [(''page'', JNum 2)]) db0)) = 200 \<and>
   data (fst (router L0 alice 500 (GET_leads ''10'' [(''page'', JNum 2)]) db0))
     = LeadList []
         \<lparr>currentPage = 2, totalPages = 1, totalRecords = 1, hasNextPage = False,
          hasPrevPage = True\<rparr>"
proof -
  let ?q = "[(''page'', JNum 4), (''limit'', JNum 10)]"
  let ?q' = "[(''page'', JNum 2)]"
  let ?w = "[(''page'', JNum 2), (''limit'', JNum 10)]"
  let ?P' = "\<lambda>l. customerId l = 10 \<and> (case truthy ?w ''status'' of None \<Rightarrow> True
                                         | Some s \<Rightarrow> lstatus l = s)"
  have v: "validateQuery L0 paginationSchema ?q = Inr ?q" by code_simp
  have p: "int_of ?q ''page'' = Some 4" "int_of ?q ''limit'' = Some 10" by code_simp+
  have P: "Customer_filter L0 (listQuery carol ?q) = Some (owned_by None)"
    by (simp add: Customer_filter_def listQuery_def truthy_def carol_def)
  have n: "length (filter (owned_by None) (customers db25)) = 25" by code_simp
  have pg: "page_info 4 10 25 =
     \<lparr>currentPage = 4, totalPages = 3, totalRecords = 25, hasNextPage = False,
      hasPrevPage = True\<rparr>"
    by (simp add: page_info_def)
  have b: "totalPages (page_info 4 10 (length (filter (owned_by None) (customers db25)))) < 4"
    unfolding n pg by simp
  have w: "validateQuery L0 leadFilterSchema ?q' = Inr ?w" by code_simp
  have p': "int_of ?w ''page'' = Some 2" "int_of ?w ''limit'' = Some 10" by code_simp+
  have c: "castObjectId L0 ''10'' = Some 10"
    "find (\<lambda>c. cid c = 10) (customers db0) = Some acme" by code_simp+
  have o: "role alice = ''admin'' \<or> uid alice = ownerId acme"
    by (simp add: alice_def acme_def)
  have P': "Lead_filter L0 (leadsQuery ''10'' ?w) = Inr ?P'"
    by (rule leads_filter [OF c(1)])
  have n': "length (filter ?P' (leads db0)) = 1" by code_simp
  have "\<lceil>real (1::nat) / real_of_int 10\<rceil> = 1"
    using ceiling_pages [of 10 1] by simp
  then have pg': "page_info 2 10 1 =
     \<lparr>currentPage = 2, totalPages = 1, totalRecords = 1, hasNextPage = False,
      hasPrevPage = True\<rparr>"
    by (simp add: page_info_def)
  have b': "totalPages (page_info 2 10 (length (filter ?P' (leads db0)))) < 2"
    unfolding n' pg' by simp
  have 1: "status (fst (router L0 carol 500 (GET_customers ?q) db25)) = 200 \<and>
           data (fst (router L0 carol 500 (GET_customers ?q) db25))
             = CustomerList [] (page_info 4 10 25)"
    using C9_page_beyond_last [of L0 ?q ?q 4 10 carol "owned_by None" db25 500]
      v p P b unfolding n by blast
  have 2: "status (fst (router L0 alice 500 (GET_leads ''10'' ?q') db0)) = 200 \<and>
           data (fst (router L0 alice 500 (GET_leads ''10'' ?q') db0))
             = LeadList [] (page_info 2 10 1)"
    using C9_page_beyond_last [of L0 _ _ _ _ alice _ db0 500 ?q' ?w 2 10 "''10''" 10 acme ?P']
      w p' c o P' b' unfolding n' by blast
  from 1 2 show ?thesis unfolding pg pg' by simp
qed

text \<open>
  C9 as stated does not hold: a validated list request beyond the last page can be
  answered with an error. The lead list handler looks the customer up and checks its
  owner before it paginates. Customer 10 has one lead, so page 2 of its leads is beyond
  the single page: Bob, who does not own the customer, is answered 403. No customer 99
  exists, its leads are none and no page exists: page 2 is answered 404, even to the
  admin. On the customer list, the search \<open>(\<close> passes the query schema and does not
  compile as a regular expression: page 2 is answered 500.
\<close>

theorem C9_counterexample:
  "validateQuery L0 leadFilterSchema [(''page'', JNum 2)]
     = Inr [(''page'', JNum 2), (''limit'', JNum 10)] \<and>
   length (filter (\<lambda>l. customerId l = 10) (leads db0)) = 1 \<and>
   totalPages (page_info 2 10 1) = 1 \<and>
   status (fst (router L0 bob 500 (GET_leads ''10'' [(''page'', JNum 2)]) db0)) = 403 \<and>
   success (fst (router L0 bob 500 (GET_leads ''10'' [(''page'', JNum 2)]) db0)) = False \<and>
   castObjectId L0 ''99'' = Some 99 \<and>
   find (\<lambda>c. cid c = 99) (customers db0) = None \<and>
   length (filter (\<lambda>l. customerId l = 99) (leads db0)) = 0 \<and>
   totalPages (page_info 2 10 0) = 0 \<and>
   status (fst (router L0 carol 500 (GET_leads ''99'' [(''page'', JNum 2)]) db0)) = 404 \<and>
   validateQuery L0 paginationSchema [(''page'', JNum 2), (''q'', JStr ''('')]
     = Inr [(''page'', JNum 2), (''limit'', JNum 10), (''q'', JStr ''('')] \<and>
   regex_i L0 ''('' = None \<and>
   status (fst (router L0 carol 500
                  (GET_customers [(''page'', JNum 2), (''q'', JStr ''('')]) db0)) = 500"
  by code_simp

section \<open>The customers an identity is shown\<close>

lemma set_page_of: "set (page_of page limit xs) \<subseteq> set xs"
  unfolding page_of_def by (meson set_take_subset set_drop_subset subset_trans)

lemma Customer_filter_owner:
  assumes "Customer_filter L qry = Some P" and "P c"
  shows "owned_by (q_ownerId qry) c"
  using assms by (auto simp: Customer_filter_def split: option.splits)

lemma Customer_filter_search:
  assumes "Customer_filter L \<lparr>q_ownerId = ow, q_or = Some q\<rparr> = Some P"
  shows "\<exists>m. regex_i L q = Some m \<and> P = (\<lambda>c. owned_by ow c \<and> search_fields m c)"
  using assms by (auto simp: Customer_filter_def split: option.splits)

lemma listCustomers_data:
  assumes "validateQuery L paginationSchema query = Inr v"
    and "data (fst (router L u now (GET_customers query) d)) = CustomerList rows pg"
  shows "\<exists>page limit P.
           int_of v ''page'' = Some page \<and> int_of v ''limit'' = Some limit \<and>
           1 \<le> page \<and> 1 \<le> limit \<and> limit \<le> 100 \<and>
           Customer_filter L (listQuery u v) = Some P \<and>
           map fst rows = page_of page limit (newest_first createdAt (filter P (customers d))) \<and>
           pg = page_info page limit (length (filter P (customers d)))"
proof -
  from assms(1) have r: "router L u now (GET_customers query) d = listCustomers L u v d"
    by simp
  from pagination_accepted [OF assms(1)] obtain page limit where
    pl: "int_of v ''page'' = Some page" "int_of v ''limit'' = Some limit"
        "1 \<le> page" "1 \<le> limit" "limit \<le> 100"
    by blast
  have "Customer_filter L (listQuery u v) \<noteq> None"
  proof
    assume "Customer_filter L (listQuery u v) = None"
    then have "data (fst (listCustomers L u v d)) = NoData"
      by (auto simp: listCustomers_def Customer_find_def failure_def split: option.splits)
    with assms(2) show False unfolding r by simp
  qed
  then obtain P where P: "Customer_filter L (listQuery u v) = Some P" by blast
  from assms(2) have
    "rows = map (\<lambda>c. (c, length (filter (\<lambda>l. customerId l = cid c) (leads d))))
              (page_of page limit (newest_first createdAt (filter P (customers d))))"
    and "pg = page_info page limit (length (filter P (customers d)))"
    unfolding r listCustomers_page [OF pl(1-4) P] by (simp_all add: succeed_def)
  then have "map fst rows = page_of page limit (newest_first createdAt (filter P (customers d)))"
    and "pg = page_info page limit (length (filter P (customers d)))"
    by (simp_all add: comp_def)
  with pl P show ?thesis by blast
qed

text \<open>
  C2. In a list of customers answered to an identity that is no admin, the filter of the
  query carries the id of the identity as \<open>ownerId\<close>, and every customer of the page is
  owned by the identity. For an admin the filter carries no \<open>ownerId\<close>: the records counted
  are all the customers when there is no search, all those the search pattern matches
  when there is one, whoever owns them, and the page is taken from these.
\<close>

theorem C2_list_scope:
  assumes "validateQuery L paginationSchema query = Inr v"
    and "data (fst (router L u now (GET_customers query) d)) = CustomerList rows pg"
  shows "(role u \<noteq> ''admin'' \<longrightarrow>
            q_ownerId (listQuery u v) = Some (uid u) \<and>
            (\<forall>row \<in> set rows. ownerId (fst row) = uid u)) \<and>
         (role u = ''admin'' \<longrightarrow>
            q_ownerId (listQuery u v) = None \<and>
            (truthy v ''q'' = None \<longrightarrow>
               totalRecords pg = length (customers d) \<and>
               (\<exists>page limit. map fst rows = page_of page limit (newest_first createdAt (customers d)))) \<and>
            (\<forall>q. truthy v ''q'' = Some q \<longrightarrow>
               (\<exists>m page limit. regex_i L q = Some m \<and>
                  totalRecords pg = length (filter (search_fields m) (customers d)) \<and>
                  map fst rows = page_of page limit
                    (newest_first createdAt (filter (search_fields m) (customers d))))))"
proof -
  from listCustomers_data [OF assms] obtain page limit P where
    P: "Customer_filter L (listQuery u v) = Some P"
    and rows: "map fst rows = page_of page limit (newest_first createdAt (filter P (customers d)))"
    and pg: "pg = page_info page limit (length (filter P (customers d)))"
    by blast
  have user: "q_ownerId (listQuery u v) = Some (uid u) \<and>
              (\<forall>row \<in> set rows. ownerId (fst row) = uid u)" if "role u \<noteq> ''admin''"
  proof
    from that show q: "q_ownerId (listQuery u v) = Some (uid u)"
      by (simp add: listQuery_def)
    show "\<forall>row \<in> set rows. ownerId (fst row) = uid u"
    proof
      fix row assume "row \<in> set rows"
      then have "fst row \<in> set (map fst rows)" by simp
      then have "fst row \<in> set (filter P (customers d))"
        unfolding rows using set_page_of by fastforce
      then have "P (fst row)" by simp
      from Customer_filter_owner [OF P this] show "ownerId (fst row) = uid u"
        unfolding q by (simp add: owned_by_def)
    qed
  qed
  have admin: "q_ownerId (listQuery u v) = None \<and>
            (truthy v ''q'' = None \<longrightarrow>
               totalRecords pg = length (customers d) \<and>
               (\<exists>page limit. map fst rows = page_of page limit (newest_first createdAt (customers d)))) \<and>
            (\<forall>q. truthy v ''q'' = Some q \<longrightarrow>
               (\<exists>m page limit. regex_i L q = Some m \<and>
                  totalRecords pg = length (filter (search_fields m) (customers d)) \<and>
                  map fst rows = page_of page limit
                    (newest_first createdAt (filter (search_fields m) (customers d)))))"
    if a: "role u = ''admin''"
  proof (intro conjI impI allI)
    from a show "q_ownerId (listQuery u v) = None" by (simp add: listQuery_def)
  next
    assume n: "truthy v ''q'' = None"
    with a P have "P = owned_by None"
      by (simp add: listQuery_def Customer_filter_def)
    then have all: "filter P (customers d) = customers d"
      by (simp add: owned_by_def)
    show "totalRecords pg = length (customers d)"
      unfolding pg all by (simp add: page_info_def)
    show "\<exists>page limit. map fst rows = page_of page limit (newest_first createdAt (customers d))"
      using rows unfolding all by blast
  next
    fix q assume s: "truthy v ''q'' = Some q"
    with a P have "Customer_filter L \<lparr>q_ownerId = None, q_or = Some q\<rparr> = Some P"
      by (simp add: listQuery_def)
    from Customer_filter_search [OF this] obtain m where
      m: "regex_i L q = Some m" "P = (\<lambda>c. owned_by None c \<and> search_fields m c)"
      by blast
    from m(2) have "P = search_fields m" by (simp add: owned_by_def)
    with m(1) rows pg show "\<exists>m page limit. regex_i L q = Some m \<and>
                  totalRecords pg = length (filter (search_fields m) (customers d)) \<and>
                  map fst rows = page_of page limit
                    (newest_first createdAt (filter (search_fields m) (customers d)))"
      by (auto simp: page_info_def)
  qed
  from user admin show ?thesis by blast
qed

text \<open>Bob is shown his customer 20 only; the admin is counted both customers.\<close>

theorem C2_list_scope_witness:
  "data (fst (router L0 bob 500 (GET_customers []) db0))
     = CustomerList [(globex, 1)] (page_info 1 10 1) \<and>
   ownerId globex = uid bob \<and>
   data (fst (router L0 carol 500 (GET_customers []) db0))
     = CustomerList [(globex, 1), (acme, 1)] (page_info 1 10 2) \<and>
   totalRecords (page_info 1 10 2) = length (customers db0)"
proof -
  let ?v = "[(''page'', JNum 1), (''limit'', JNum 10)]"
  have v: "validateQuery L0 paginationSchema [] = Inr ?v" by code_simp
  have b: "data (fst (router L0 bob 500 (GET_customers []) db0))
             = CustomerList [(globex, 1)] (page_info 1 10 1)" by code_simp
  have c: "data (fst (router L0 carol 500 (GET_customers []) db0))
             = CustomerList [(globex, 1), (acme, 1)] (page_info 1 10 2)" by code_simp
  have nb: "role bob \<noteq> ''admin''" by (simp add: bob_def)
  have ac: "role carol = ''admin''" by (simp add: carol_def)
  have t: "truthy ?v ''q'' = None" by (simp add: truthy_def)
  from C2_list_scope [OF v b] nb have "ownerId globex = uid bob" by simp
  moreover from C2_list_scope [OF v c] ac t
  have "totalRecords (page_info 1 10 2) = length (customers db0)" by blast
  ultimately show ?thesis using b c by simp
qed

section \<open>Search\<close>

lemma match_here_Lit:
  "match_here (map Lit q) s \<longleftrightarrow> take (length q) (map toLowerCase s) = map toLowerCase q"
proof (induction q arbitrary: s)
  case Nil
  then show ?case by simp
next
  case (Cons c q)
  then show ?case by (cases s) auto
qed

lemma match_anywhere_drop:
  "match_anywhere ps s \<longleftrightarrow> (\<exists>i \<le> length s. match_here ps (drop i s))"
proof (induction s)
  case Nil
  then show ?case by simp
next
  case (Cons d s)
  have "(\<exists>i \<le> length (d # s). match_here ps (drop i (d # s)))
          \<longleftrightarrow> match_here ps (d # s) \<or> (\<exists>j \<le> length s. match_here ps (drop j s))"
  proof
    assume "\<exists>i \<le> length (d # s). match_here ps (drop i (d # s))"
    then obtain i where i: "i \<le> length (d # s)" "match_here ps (drop i (d # s))" by blast
    show "match_here ps (d # s) \<or> (\<exists>j \<le> length s. match_here ps (drop j s))"
    proof (cases i)
      case 0
      with i show ?thesis by simp
    next
      case (Suc j)
      with i have "j \<le> length s" "match_here ps (drop j s)" by simp_all
      then show ?thesis by blast
    qed
  next
    assume "match_here ps (d # s) \<or> (\<exists>j \<le> length s. match_here ps (drop j s))"
    then show "\<exists>i \<le> length (d # s). match_here ps (drop i (d # s))"
    proof
      assume "match_here ps (d # s)"
      then have "0 \<le> length (d # s) \<and> match_here ps (drop 0 (d # s))" by simp
      then show ?thesis by blast
    next
      assume "\<exists>j \<le> length s. match_here ps (drop j s)"
      then obtain j where "j \<le> length s" "match_here ps (drop j s)" by blast
      then have "Suc j \<le> length (d # s) \<and> match_here ps (drop (Suc j) (d # s))" by simp
      then show ?thesis by blast
    qed
  qed
  with Cons show ?case by simp
qed

lemma occurs_ci_iff:
  "occurs_ci q s \<longleftrightarrow>
     (\<exists>i \<le> length s. take (length q) (drop i (map toLowerCase s)) = map toLowerCase q)"
  by (auto simp: occurs_ci_def list_ex_iff less_Suc_eq_le simp del: upt_Suc)

text \<open>\<open>occurs_ci\<close> is the substring relation on the two strings in lower case.\<close>

lemma occurs_ci_substring:
  "occurs_ci q s \<longleftrightarrow> (\<exists>ps ss. map toLowerCase s = ps @ map toLowerCase q @ ss)"
proof
  assume "occurs_ci q s"
  then obtain i where i: "take (length q) (drop i (map toLowerCase s)) = map toLowerCase q"
    unfolding occurs_ci_iff by blast
  have "map toLowerCase s = take i (map toLowerCase s) @ drop i (map toLowerCase s)"
    by simp
  also have "drop i (map toLowerCase s)
               = take (length q) (drop i (map toLowerCase s))
                 @ drop (length q) (drop i (map toLowerCase s))"
    by (simp only: append_take_drop_id)
  finally show "\<exists>ps ss. map toLowerCase s = ps @ map toLowerCase q @ ss"
    unfolding i by blast
next
  assume "\<exists>ps ss. map toLowerCase s = ps @ map toLowerCase q @ ss"
  then obtain ps ss where e: "map toLowerCase s = ps @ map toLowerCase q @ ss" by blast
  then have "length ps \<le> length (map toLowerCase s)" by simp
  then have "length ps \<le> length s" by simp
  moreover have "take (length q) (drop (length ps) (map toLowerCase s)) = map toLowerCase q"
    unfolding e by simp
  ultimately show "occurs_ci q s" unfolding occurs_ci_iff by blast
qed

lemma compile_literal: "list_all (\<lambda>c. c \<noteq> CHR ''.'') q \<Longrightarrow> compile q = map Lit q"
  by (induction q) (auto simp: compile_def)

lemma regex_literal:
  assumes "list_all (\<lambda>c. plain c \<and> c \<noteq> CHR ''.'') q"
  shows "regex_i L q = Some (occurs_ci q)"
proof -
  from assms have p: "list_all plain q" and l: "list_all (\<lambda>c. c \<noteq> CHR ''.'') q"
    by (simp_all add: list_all_iff)
  have "match_anywhere (map Lit q) s = occurs_ci q s" for s
    unfolding match_anywhere_drop occurs_ci_iff match_here_Lit by (simp add: drop_map)
  then have "match_anywhere (map Lit q) = occurs_ci q" by (rule ext)
  with p show ?thesis by (simp add: regex_i_def compile_literal [OF l])
qed

lemma owned_by_visible:
  "owned_by (if role u \<noteq> ''admin'' then Some (uid u) else None) c = visible u c"
  by (auto simp: owned_by_def visible_def)

text \<open>
  C8, as the code has it. \<open>q\<close> is the query string as the validation leaves it, trimmed,
  and not empty. When it is made of ASCII characters none of which is a metacharacter of
  regular expressions, the customers matched are those the identity may see in whose
  name, email or company \<open>q\<close> occurs as a substring, case ignored; the response counts
  them and returns their page. Any other \<open>q\<close> is read as a regular expression.
\<close>

theorem C8_search_plain:
  assumes "validateQuery L paginationSchema query = Inr v"
    and "truthy v ''q'' = Some q"
    and "list_all (\<lambda>c. plain c \<and> c \<noteq> CHR ''.'') q"
  shows "\<exists>page limit rows.
           int_of v ''page'' = Some page \<and> int_of v ''limit'' = Some limit \<and>
           fst (router L u now (GET_customers query) d)
             = succeed 200
                 (CustomerList rows
                    (page_info page limit
                       (length (filter (\<lambda>c. visible u c \<and> occurs_in_fields q c) (customers d)))))
                 None \<and>
           map fst rows
             = take (nat limit) (drop (nat ((page - 1) * limit))
                 (newest_first createdAt
                    (filter (\<lambda>c. visible u c \<and> occurs_in_fields q c) (customers d)))) \<and>
           (\<forall>c. occurs_in_fields q c \<longleftrightarrow>
              (\<exists>ps ss. map toLowerCase (name c) = ps @ map toLowerCase q @ ss) \<or>
              (\<exists>ps ss. map toLowerCase (email c) = ps @ map toLowerCase q @ ss) \<or>
              (\<exists>s ps ss. company c = Some s \<and>
                          map toLowerCase s = ps @ map toLowerCase q @ ss))"
proof -
  let ?P = "\<lambda>c. visible u c \<and> occurs_in_fields q c"
  from assms(1) have r: "router L u now (GET_customers query) d = listCustomers L u v d"
    by simp
  from pagination_accepted [OF assms(1)] obtain page limit where
    pl: "int_of v ''page'' = Some page" "int_of v ''limit'' = Some limit"
        "1 \<le> page" "1 \<le> limit" "limit \<le> 100"
    by blast
  have "search_fields (occurs_ci q) c = occurs_in_fields q c" for c
    by (simp add: search_fields_def occurs_in_fields_def)
  then have P: "Customer_filter L (listQuery u v) = Some ?P"
    using assms(2) regex_literal [OF assms(3), of L]
    by (simp add: Customer_filter_def listQuery_def owned_by_visible)
  let ?rows = "map (\<lambda>c. (c, length (filter (\<lambda>l. customerId l = cid c) (leads d))))
                 (page_of page limit (newest_first createdAt (filter ?P (customers d))))"
  have 1: "fst (router L u now (GET_customers query) d)
             = succeed 200 (CustomerList ?rows
                 (page_info page limit (length (filter ?P (customers d))))) None"
    unfolding r by (rule listCustomers_page [OF pl(1-4) P])
  have 2: "map fst ?rows = take (nat limit) (drop (nat ((page - 1) * limit))
             (newest_first createdAt (filter ?P (customers d))))"
    by (simp add: comp_def page_of_def)
  have 3: "occurs_in_fields q c \<longleftrightarrow>
              (\<exists>ps ss. map toLowerCase (name c) = ps @ map toLowerCase q @ ss) \<or>
              (\<exists>ps ss. map toLowerCase (email c) = ps @ map toLowerCase q @ ss) \<or>
              (\<exists>s ps ss. company c = Some s \<and>
                          map toLowerCase s = ps @ map toLowerCase q @ ss)" for c
    by (cases "company c") (simp_all add: occurs_in_fields_def occurs_ci_substring)
  from pl(1,2) 1 2 3 show ?thesis by blast
qed

text \<open>The search \<open>acme\<close> finds the customer of the company \<open>Acme Corp\<close>.\<close>

theorem C8_search_plain_witness:
  "company acme = Some ''Acme Corp'' \<and>
   (\<exists>rows. fst (router L0 carol 500 (GET_customers [(''q'', JStr ''acme'')]) db0)
             = succeed 200 (CustomerList rows (page_info 1 10 1)) None \<and>
           map fst rows = [acme])"
proof -
  let ?v = "[(''page'', JNum 1), (''limit'', JNum 10), (''q'', JStr ''acme'')]"
  let ?P = "\<lambda>c. visible carol c \<and> occurs_in_fields ''acme'' c"
  have v: "validateQuery L0 paginationSchema [(''q'', JStr ''acme'')] = Inr ?v" by code_simp
  have t: "truthy ?v ''q'' = Some ''acme''" by (simp add: truthy_def)
  have l: "list_all (\<lambda>c. plain c \<and> c \<noteq> CHR ''.'') ''acme''" by code_simp
  have p: "int_of ?v ''page'' = Some 1" "int_of ?v ''limit'' = Some 10" by code_simp+
  have f: "filter ?P (customers db0) = [acme]" by code_simp
  have s: "take (nat 10) (drop (nat ((1 - 1) * 10)) (newest_first createdAt [acme])) = [acme]"
    by (simp add: newest_first_def)
  have co: "company acme = Some ''Acme Corp''" by (simp add: acme_def)
  from C8_search_plain [OF v t l, of carol 500 db0] obtain page limit rows where
    w: "int_of ?v ''page'' = Some page" "int_of ?v ''limit'' = Some limit"
       "fst (router L0 carol 500 (GET_customers [(''q'', JStr ''acme'')]) db0)
          = succeed 200 (CustomerList rows
              (page_info page limit (length (filter ?P (customers db0))))) None"
       "map fst rows = take (nat limit) (drop (nat ((page - 1) * limit))
                         (newest_first createdAt (filter ?P (customers db0))))"
    by blast
  from w(1,2) p have pl: "page = 1" "limit = 10" by simp_all
  from w(3) have a: "fst (router L0 carol 500 (GET_customers [(''q'', JStr ''acme'')]) db0)
          = succeed 200 (CustomerList rows (page_info 1 10 1)) None"
    unfolding pl f by simp
  from w(4) have b: "map fst rows = [acme]"
    unfolding pl f s .
  show ?thesis
  proof (intro conjI exI [of _ rows])
    show "company acme = Some ''Acme Corp''" by (rule co)
    show "fst (router L0 carol 500 (GET_customers [(''q'', JStr ''acme'')]) db0)
          = succeed 200 (CustomerList rows (page_info 1 10 1)) None" by (rule a)
    show "map fst rows = [acme]" by (rule b)
  qed
qed

text \<open>
  C8 as stated does not hold: \<open>q\<close> is a pattern. The search \<open>a.me\<close> returns the customer 10
  for its company \<open>Acme Corp\<close>, the dot standing for the \<open>c\<close>, although \<open>a.me\<close> occurs in none
  of its name, email and company.
\<close>

theorem C8_counterexample:
  "name acme = ''Ann Lee'' \<and> email acme = ''ann@example.com'' \<and>
   company acme = Some ''Acme Corp'' \<and>
   \<not> occurs_in_fields ''a.me'' acme \<and>
   data (fst (router L0 carol 500 (GET_customers [(''q'', JStr ''a.me'')]) db0))
     = CustomerList [(acme, 1)] (page_info 1 10 1)"
  by code_simp

section \<open>A body accepted by the lead schema is valid for the Lead model\<close>

lemma dropWhile_fixed: "xs = [] \<or> \<not> P (hd xs) \<Longrightarrow> dropWhile P xs = xs"
  by (cases xs) auto

lemma trim_idem: "trim (trim s) = trim s"
proof -
  let ?t = "dropWhile isSpace s"
  let ?n = "length (takeWhile isSpace (rev ?t))"
  have u: "trim s = take (length ?t - ?n) ?t"
    by (simp add: trim_def dropWhile_eq_drop [of isSpace "rev ?t"] rev_drop)
  have front: "dropWhile isSpace (trim s) = trim s"
  proof (rule dropWhile_fixed, cases "trim s = []")
    case True
    then show "trim s = [] \<or> \<not> isSpace (hd (trim s))" by simp
  next
    case False
    then have "0 < length ?t - ?n" and "?t \<noteq> []" unfolding u by auto
    then have "hd (trim s) = hd ?t" unfolding u by (simp add: hd_take)
    moreover from \<open>?t \<noteq> []\<close> have "\<not> isSpace (hd ?t)" by (rule hd_dropWhile)
    ultimately show "trim s = [] \<or> \<not> isSpace (hd (trim s))" by simp
  qed
  have "trim (trim s) = rev (dropWhile isSpace (rev (trim s)))"
    unfolding trim_def [of "trim s"] front ..
  also have "rev (trim s) = dropWhile isSpace (rev ?t)"
    by (simp add: trim_def)
  also have "dropWhile isSpace (dropWhile isSpace (rev ?t)) = dropWhile isSpace (rev ?t)"
    by (rule dropWhile_idem)
  finally show ?thesis by (simp add: trim_def)
qed

lemma length_trim: "length (trim s) \<le> length s"
proof -
  have "length (trim s) \<le> length (dropWhile isSpace s)"
    unfolding trim_def using length_dropWhile_le [of isSpace "rev (dropWhile isSpace s)"]
    by simp
  also have "\<dots> \<le> length s" by (rule length_dropWhile_le)
  finally show ?thesis .
qed

text \<open>A trimmed string key, with \<open>allow('')\<close> or without.\<close>

lemma validate_key_string:
  assumes "fst (validate_key L k ks x) = []"
    and "jtype ks = JoiString True False rs" and "\<not> only ks"
    and "set (valids ks) \<subseteq> {JStr ''''}" and "dflt ks = None"
  shows "(snd (validate_key L k ks x) = None \<and> \<not> required ks) \<or>
         (snd (validate_key L k ks x) = Some (JStr '''') \<and> JStr '''' \<in> set (valids ks)) \<or>
         (\<exists>s. snd (validate_key L k ks x) = Some (JStr (trim s)) \<and> trim s \<noteq> [] \<and>
              concat (map (srule_error L (trim s)) rs) = [])"
proof (cases x)
  case None
  with assms show ?thesis by (auto simp: validate_key_def split: if_splits)
next
  case (Some y)
  show ?thesis
  proof (cases "y \<in> set (valids ks)")
    case True
    with assms(4) have "y = JStr ''''" by auto
    with True Some show ?thesis by (simp add: validate_key_def)
  next
    case False
    let ?z = "coerce L (JoiString True False rs) y"
    show ?thesis
    proof (cases "?z \<in> set (valids ks)")
      case True
      with assms(4) have "?z = JStr ''''" by auto
      with True False Some assms(2) show ?thesis by (simp add: validate_key_def Let_def)
    next
      case nz: False
      from assms Some False nz have b: "base_error (JoiString True False rs) ?z = None"
        by (auto simp: validate_key_def Let_def split: option.splits)
      then obtain s where y: "y = JStr s"
        by (cases y) auto
      with b have ne: "trim s \<noteq> []" by (auto split: if_splits)
      from assms Some False nz b y have "concat (map (srule_error L (trim s)) rs) = []"
        by (auto simp: validate_key_def Let_def)
      with assms Some False nz b y ne show ?thesis
        by (auto simp: validate_key_def Let_def)
    qed
  qed
qed

lemma validate_key_status:
  assumes "fst (validate_key L k ks x) = []"
    and "jtype ks = JoiString False False []" and "only ks"
    and "valids ks = map JStr statuses" and "dflt ks = Some (JStr ''New'')"
    and "\<not> required ks"
  shows "\<exists>s \<in> set statuses. snd (validate_key L k ks x) = Some (JStr s)"
proof (cases x)
  case None
  with assms show ?thesis by (simp add: validate_key_def statuses_def)
next
  case (Some y)
  show ?thesis
  proof (cases "y \<in> set (valids ks)")
    case True
    with Some assms(4) show ?thesis by (auto simp: validate_key_def)
  next
    case False
    let ?z = "coerce L (JoiString False False []) y"
    have "?z \<in> set (valids ks)"
    proof (rule ccontr)
      assume "?z \<notin> set (valids ks)"
      with assms(1,2,3) Some False show False
        by (auto simp: validate_key_def Let_def split: option.splits)
    qed
    with Some False assms(2,4) show ?thesis
      by (auto simp: validate_key_def Let_def)
  qed
qed

lemma upd_string_ok:
  assumes "trim s \<noteq> []" and "case p_maxlength p of None \<Rightarrow> True | Some n \<Rightarrow> length (trim s) \<le> n"
    and "p_trim p" and "\<not> p_lowercase p" and "p_match p = None" and "p_enum p = None"
  shows "upd_string p (Some (JStr (trim s))) = Inr (Some (trim s))"
  using assms
  by (simp add: upd_string_def set_string_def string_valid_def trim_idem Let_def)

lemma upd_string_empty:
  assumes "\<not> p_required p" and "p_trim p" and "\<not> p_lowercase p" and "p_match p = None"
    and "p_enum p = None"
  shows "upd_string p (Some (JStr '''')) = Inr (Some '''')"
  using assms
  by (cases "p_maxlength p")
    (simp_all add: upd_string_def set_string_def string_valid_def trim_def Let_def)

lemma lead_body_valid:
  assumes "validate L leadSchema body = Inr v"
  shows "\<exists>f. Lead_castUpdate L v = Inr f"
proof -
  let ?ti = "(joiString True False [SMin 2, SMax 200])
         \<lparr>required := True,
          messages := [(''string.empty'', ''Lead title is required''),
                       (''string.min'', ''Title must be at least 2 characters''),
                       (''string.max'', ''Title cannot exceed 200 characters'')]\<rparr>"
  let ?de = "(joiString True False [SMax 1000])
         \<lparr>valids := [JStr ''''],
          messages := [(''string.max'', ''Description cannot exceed 1000 characters'')]\<rparr>"
  let ?st = "(joiString False False [])
         \<lparr>valids := map JStr statuses, only := True, dflt := Some (JStr ''New'')\<rparr>"
  let ?va = "(joiNumber [NMin 0])
         \<lparr>dflt := Some (JNum 0),
          messages := [(''number.min'', ''Value cannot be negative'')]\<rparr>"
  from validate_Inr [OF assms] have
    ok: "fst (joi_validate L leadSchema body) = []"
    and v: "v = snd (joi_validate L leadSchema body)" by simp_all
  have d: "distinct (map fst leadSchema)" by (simp add: leadSchema_def)
  have m: "(''title'', ?ti) \<in> set leadSchema" "(''description'', ?de) \<in> set leadSchema"
    "(''status'', ?st) \<in> set leadSchema" "(''value'', ?va) \<in> set leadSchema"
    by (simp_all add: leadSchema_def)
  have title: "\<exists>t. upd_string Lead_title (map_of v ''title'') = Inr t"
  proof -
    from validate_key_string [OF joi_key_accepted [OF ok m(1)], of "[SMin 2, SMax 200]"]
    obtain s where s: "map_of v ''title'' = Some (JStr (trim s))" "trim s \<noteq> []"
      "concat (map (srule_error L (trim s)) [SMin 2, SMax 200]) = []"
      unfolding v joi_value_lookup [OF d m(1)] by (auto simp: joiString_def)
    from s(3) have "length (trim s) \<le> 200" by (auto split: if_splits)
    with s(2) have "upd_string Lead_title (Some (JStr (trim s))) = Inr (Some (trim s))"
      by (intro upd_string_ok) (simp_all add: Lead_title_def schemaString_def)
    with s(1) show ?thesis by simp
  qed
  have descr: "\<exists>t. upd_string Lead_description (map_of v ''description'') = Inr t"
  proof -
    from validate_key_string [OF joi_key_accepted [OF ok m(2)], of "[SMax 1000]"]
    consider "map_of v ''description'' = None"
      | "map_of v ''description'' = Some (JStr '''')"
      | s where "map_of v ''description'' = Some (JStr (trim s))" "trim s \<noteq> []"
          "concat (map (srule_error L (trim s)) [SMax 1000]) = []"
      unfolding v joi_value_lookup [OF d m(2)] by (auto simp: joiString_def)
    then show ?thesis
    proof cases
      case 1
      then show ?thesis by (simp add: upd_string_def)
    next
      case 2
      have "upd_string Lead_description (Some (JStr '''')) = Inr (Some '''')"
        by (intro upd_string_empty) (simp_all add: Lead_description_def schemaString_def)
      with 2 show ?thesis by simp
    next
      case 3
      from 3(3) have "length (trim s) \<le> 1000" by (auto split: if_splits)
      with 3(2) have "upd_string Lead_description (Some (JStr (trim s))) = Inr (Some (trim s))"
        by (intro upd_string_ok) (simp_all add: Lead_description_def schemaString_def)
      with 3(1) show ?thesis by simp
    qed
  qed
  have stat: "\<exists>t. upd_string Lead_status (map_of v ''status'') = Inr t"
  proof -
    from validate_key_status [OF joi_key_accepted [OF ok m(3)]]
    obtain s where s: "s \<in> set statuses" "map_of v ''status'' = Some (JStr s)"
      unfolding v joi_value_lookup [OF d m(3)] by (auto simp: joiString_def)
    from s(1) have "upd_string Lead_status (Some (JStr s)) = Inr (Some s)"
      by (simp add: upd_string_def set_string_def string_valid_def Lead_status_def
          schemaString_def)
    with s(2) show ?thesis by simp
  qed
  have val: "\<exists>t. upd_value (map_of v ''value'') = Inr t"
  proof -
    from validate_key_number [OF joi_key_accepted [OF ok m(4)], of "[NMin 0]" 0]
    obtain n where n: "map_of v ''value'' = Some (JNum n)"
      "n = 0 \<or> concat (map (nrule_error n) [NMin 0]) = []"
      unfolding v joi_value_lookup [OF d m(4)] by (auto simp: joiNumber_def)
    from n(2) have "\<not> n < 0" by (auto split: if_splits)
    with n(1) show ?thesis by (simp add: upd_value_def set_value_def)
  qed
  have "map_of v ''customerId'' = None"
    unfolding v by (rule joi_value_no_key) (simp add: leadSchema_def)
  then have cust: "upd_objectId L (map_of v ''customerId'') = Inr None"
    by (simp add: upd_objectId_def)
  from title descr stat val cust show ?thesis
    by (auto simp: Lead_castUpdate_def bindE_def)
qed

section \<open>A lead under the path of another customer\<close>

lemma deleteOne_none: "find P xs = None \<Longrightarrow> deleteOne P xs = xs"
  by (induction xs) (auto split: if_splits)

lemma byIds_none:
  assumes "distinct (map lid ls)" and "l \<in> set ls" and "lid l = j" and "customerId l \<noteq> i"
  shows "find (\<lambda>l. lid l = j \<and> customerId l = i) ls = None"
proof -
  have "\<not> (lid l' = j \<and> customerId l' = i)" if "l' \<in> set ls" for l'
  proof
    assume a: "lid l' = j \<and> customerId l' = i"
    with assms(1,2,3) that have "l' = l"
      by (auto simp: distinct_map inj_on_def)
    with a assms(4) show False by simp
  qed
  then show ?thesis by (auto simp: find_None_iff)
qed

lemma Lead_byIds_cast:
  "castObjectId L q = Some j \<Longrightarrow> castObjectId L p = Some i \<Longrightarrow>
   Lead_byIds L q p = Inr (\<lambda>l. lid l = j \<and> customerId l = i)"
  by (simp add: Lead_byIds_def)

lemma getLead_not_found:
  assumes "castObjectId L p = Some i" and "find (\<lambda>c. cid c = i) (customers d) = Some c"
    and "\<not> denied u c" and "castObjectId L q = Some j"
    and "find (\<lambda>l. lid l = j \<and> customerId l = i) (leads d) = None"
  shows "fst (getLead L u p q d) = failure 404 ''Lead not found''"
    and "leads (snd (getLead L u p q d)) = leads d"
    and "customers (snd (getLead L u p q d)) = customers d"
  using assms
  by (simp_all add: getLead_def findById_found Lead_findOne_def Lead_byIds_cast)

lemma updateLead_not_found:
  assumes "castObjectId L p = Some i" and "find (\<lambda>c. cid c = i) (customers d) = Some c"
    and "\<not> denied u c" and "castObjectId L q = Some j"
    and "find (\<lambda>l. lid l = j \<and> customerId l = i) (leads d) = None"
    and "Lead_castUpdate L v = Inr f"
  shows "fst (updateLead L u p q v now d) = failure 404 ''Lead not found''"
    and "leads (snd (updateLead L u p q v now d)) = leads d"
    and "customers (snd (updateLead L u p q v now d)) = customers d"
  using assms
  by (simp_all add: updateLead_def findById_found Lead_findOneAndUpdate_def Lead_byIds_cast
      Let_def)

lemma deleteLead_not_found:
  assumes "castObjectId L p = Some i" and "find (\<lambda>c. cid c = i) (customers d) = Some c"
    and "\<not> denied u c" and "castObjectId L q = Some j"
    and "find (\<lambda>l. lid l = j \<and> customerId l = i) (leads d) = None"
  shows "fst (deleteLead L u p q d) = failure 404 ''Lead not found''"
    and "leads (snd (deleteLead L u p q d)) = leads d"
    and "customers (snd (deleteLead L u p q d)) = customers d"
  using assms
  by (simp_all add: deleteLead_def findById_found Lead_findOneAndDelete_def Lead_byIds_cast
      Let_def deleteOne_none)

text \<open>
  C10, as the code has it. The ids of the leads are distinct, as the database keeps them.
  For GET, PUT and DELETE on one lead, when the customer of the path exists, the identity
  is its owner or an admin, and (for PUT) the body has passed the lead schema: a lead
  that exists under the id of the path but belongs to another customer is not found. The
  answer is 404 with the error \<open>Lead not found\<close>, and no lead and no customer is changed.
\<close>

theorem C10_lead_of_other_customer:
  assumes "lead_param req = Some q" and "customer_param req = Some p"
    and "accepted L req"
    and "castObjectId L p = Some i" and "find (\<lambda>c. cid c = i) (customers d) = Some c"
    and "role u = ''admin'' \<or> uid u = ownerId c"
    and "castObjectId L q = Some j"
    and "distinct (map lid (leads d))"
    and "l \<in> set (leads d)" and "lid l = j" and "customerId l \<noteq> i"
  shows "status (fst (router L u now req d)) = 404 \<and>
         error (fst (router L u now req d)) = Some ''Lead not found'' \<and>
         leads (snd (router L u now req d)) = leads d \<and>
         customers (snd (router L u now req d)) = customers d"
proof -
  from assms(6) have nd: "\<not> denied u c" by (simp add: denied_iff)
  have none: "find (\<lambda>l. lid l = j \<and> customerId l = i) (leads d) = None"
    using assms(8-11) by (rule byIds_none)
  have "fst (router L u now req d) = failure 404 ''Lead not found'' \<and>
        leads (snd (router L u now req d)) = leads d \<and>
        customers (snd (router L u now req d)) = customers d"
  proof (cases req)
    case (GET_lead p' q')
    with assms(1,2) have "p' = p" "q' = q" by simp_all
    with GET_lead getLead_not_found [OF assms(4,5) nd assms(7) none] show ?thesis by simp
  next
    case (PUT_lead p' q' body)
    with assms(1,2) have e: "p' = p" "q' = q" by simp_all
    from PUT_lead assms(3) have v: "validate L leadSchema body
                                      = Inr (snd (joi_validate L leadSchema body))"
      by (simp add: accepted_def validate_accepts)
    from lead_body_valid [OF v] obtain f where
      f: "Lead_castUpdate L (snd (joi_validate L leadSchema body)) = Inr f" by blast
    from PUT_lead e v updateLead_not_found [OF assms(4,5) nd assms(7) none f]
    show ?thesis by simp
  next
    case (DELETE_lead p' q')
    with assms(1,2) have "p' = p" "q' = q" by simp_all
    with DELETE_lead deleteLead_not_found [OF assms(4,5) nd assms(7) none] show ?thesis
      by simp
  qed (use assms(1) in simp_all)
  then show ?thesis by (simp add: failure_def)
qed

text \<open>The lead 40 belongs to customer 20; the admin asks for it under customer 10.\<close>

theorem C10_lead_of_other_customer_witness:
  "status (fst (router L0 carol 500 (GET_lead ''10'' ''40'') db0)) = 404 \<and>
   status (fst (router L0 carol 500 (PUT_lead ''10'' ''40'' [(''title'', JStr ''Mine'')]) db0))
     = 404 \<and>
   leads (snd (router L0 carol 500 (PUT_lead ''10'' ''40'' [(''title'', JStr ''Mine'')]) db0))
     = leads db0 \<and>
   status (fst (router L0 carol 500 (DELETE_lead ''10'' ''40'') db0)) = 404 \<and>
   leads (snd (router L0 carol 500 (DELETE_lead ''10'' ''40'') db0)) = leads db0"
proof -
  let ?put = "PUT_lead ''10'' ''40'' [(''title'', JStr ''Mine'')]"
  have c: "castObjectId L0 ''10'' = Some 10"
    "find (\<lambda>c. cid c = 10) (customers db0) = Some acme" by code_simp+
  have a: "role carol = ''admin'' \<or> uid carol = ownerId acme" by (simp add: carol_def)
  have q: "castObjectId L0 ''40'' = Some 40" by code_simp
  have ds: "distinct (map lid (leads db0))" by code_simp
  have l: "offer \<in> set (leads db0)" "lid offer = 40" "customerId offer \<noteq> 10"
    by code_simp+
  have acc: "accepted L0 ?put" by code_simp
  have g: "lead_param (GET_lead ''10'' ''40'') = Some ''40''"
    "customer_param (GET_lead ''10'' ''40'') = Some ''10''"
    "accepted L0 (GET_lead ''10'' ''40'')"
    by (simp_all add: accepted_def)
  have pu: "lead_param ?put = Some ''40''" "customer_param ?put = Some ''10''" by simp_all
  have de: "lead_param (DELETE_lead ''10'' ''40'') = Some ''40''"
    "customer_param (DELETE_lead ''10'' ''40'') = Some ''10''"
    "accepted L0 (DELETE_lead ''10'' ''40'')"
    by (simp_all add: accepted_def)
  show ?thesis
    using C10_lead_of_other_customer [OF g c a q ds l, of 500]
      C10_lead_of_other_customer [OF pu acc c a q ds l, of 500]
      C10_lead_of_other_customer [OF de c a q ds l, of 500]
    by simp
qed

text \<open>
  C10 as stated does not hold: it names no condition on the body. The admin's PUT on the
  lead 40 under customer 10 with an empty body is answered 400 by the validation
  middleware, which runs before the handler, and not 404.
\<close>

theorem C10_counterexample:
  "castObjectId L0 ''10'' = Some 10 \<and>
   find (\<lambda>c. cid c = 10) (customers db0) = Some acme \<and>
   role carol = ''admin'' \<and>
   castObjectId L0 ''40'' = Some 40 \<and>
   find (\<lambda>l. lid l = 40) (leads db0) = Some offer \<and>
   customerId offer = 20 \<and>
   status (fst (router L0 carol 500 (PUT_lead ''10'' ''40'' []) db0)) = 400"
  by code_simp

end
